theory Spec2Isabelle
  imports Complex_Main "HOL-Library.Sublist"
begin

section \<open>Asset records and the eligibility filter (data_manager.py, lines 18-69)\<close>

text \<open>
  An asset record is a Python dict. Its entries that the core reads are the ticker, the
  sector and the country (strings) and the numeric entries, which are looked up by key:
  \<open>nums s k\<close> is \<open>None\<close> when the dict has no key \<open>k\<close>. Scores are finite numbers,
  modelled as reals; the thresholds of the filter are integers, so the comparisons of the
  source are the comparisons of the reals.
\<close>

record stock =
  ticker :: string
  sector :: string
  country :: string
  nums :: "string \<rightharpoonup> real"

text \<open>\<^verbatim>\<open>stock.get(k1, stock.get(k2, 0))\<close>\<close>

definition get2 :: "stock \<Rightarrow> string \<Rightarrow> string \<Rightarrow> real" where
  "get2 s k1 k2 =
     (case nums s k1 of Some v \<Rightarrow> v
      | None \<Rightarrow> (case nums s k2 of Some v \<Rightarrow> v | None \<Rightarrow> 0))"

definition env_score :: "stock \<Rightarrow> real" where
  "env_score s = get2 s ''env'' ''environmental_score''"

definition soc_score :: "stock \<Rightarrow> real" where
  "soc_score s = get2 s ''soc'' ''social_score''"

definition gov_score :: "stock \<Rightarrow> real" where
  "gov_score s = get2 s ''gov'' ''governance_score''"

definition total_score :: "stock \<Rightarrow> real" where
  "total_score s = get2 s ''total'' ''esg_score''"

text \<open>
  The strategy names are the string literals of the source, in their UTF-8 bytes (the
  letter e with acute accent is the two bytes C3 A9).
\<close>

definition net_zero :: string where
  "net_zero = ''Net Z'' @ [CHR 0xC3, CHR 0xA9] @ ''ro''"

definition multi_thematic :: string where
  "multi_thematic = ''Multi-th'' @ [CHR 0xC3, CHR 0xA9] @ ''matique ESG''"

definition solidarity :: string where
  "solidarity = ''Solidaire''"

text \<open>The condition under which the loop body appends the stock, branch by branch.\<close>

definition keeps :: "string \<Rightarrow> stock \<Rightarrow> bool" where
  "keeps preference s =
     (if preference = net_zero then
        env_score s < 4 \<and> total_score s < 20 \<and> max (soc_score s) (gov_score s) < 12
      else if preference = multi_thematic then
        total_score s < 22 \<and> max (max (env_score s) (soc_score s)) (gov_score s) < 10 \<and>
        (env_score s < 8 \<or> soc_score s < 8 \<or> gov_score s < 5)
      else if preference = solidarity then
        soc_score s < 8 \<and> gov_score s < 6 \<and> total_score s < 25
      else
        total_score s < 25 \<and> max (max (env_score s) (soc_score s)) (gov_score s) < 15)"

text \<open>The loop over the stocks, with the list \<open>filtered_stocks\<close> as accumulator.\<close>

fun filter_loop :: "string \<Rightarrow> stock list \<Rightarrow> stock list \<Rightarrow> stock list" where
  "filter_loop preference [] filtered_stocks = filtered_stocks"
| "filter_loop preference (s # stocks) filtered_stocks =
     filter_loop preference stocks
       (if keeps preference s then filtered_stocks @ [s] else filtered_stocks)"

definition filter_stocks_by_preference :: "stock list \<Rightarrow> string \<Rightarrow> stock list" where
  "filter_stocks_by_preference stocks preference =
     (if stocks = [] then [] else filter_loop preference stocks [])"

subsection \<open>The predicates of the specification\<close>

text \<open>
  The four predicates as the specification words them, over the sub-scores of a record,
  a missing sub-score read as 0.
\<close>

definition spec_sub_score :: "stock \<Rightarrow> string \<Rightarrow> string \<Rightarrow> real" where
  "spec_sub_score s short long =
     (if nums s short \<noteq> None then the (nums s short)
      else if nums s long \<noteq> None then the (nums s long) else 0)"

definition esg_keys :: "string list" where
  "esg_keys = [''env'', ''environmental_score'', ''soc'', ''social_score'',
               ''gov'', ''governance_score'', ''total'', ''esg_score'']"

definition no_esg_keys :: "stock \<Rightarrow> bool" where
  "no_esg_keys s \<longleftrightarrow> list_all (\<lambda>k. nums s k = None) esg_keys"

definition spec_net_zero :: "real \<Rightarrow> real \<Rightarrow> real \<Rightarrow> real \<Rightarrow> bool" where
  "spec_net_zero env soc gov tot \<longleftrightarrow> env < 4 \<and> tot < 20 \<and> max soc gov < 12"

definition spec_multi_thematic :: "real \<Rightarrow> real \<Rightarrow> real \<Rightarrow> real \<Rightarrow> bool" where
  "spec_multi_thematic env soc gov tot \<longleftrightarrow>
     tot < 22 \<and> Max {env, soc, gov} < 10 \<and> (env < 8 \<or> soc < 8 \<or> gov < 5)"

definition spec_solidarity :: "real \<Rightarrow> real \<Rightarrow> real \<Rightarrow> real \<Rightarrow> bool" where
  "spec_solidarity env soc gov tot \<longleftrightarrow> soc < 8 \<and> gov < 6 \<and> tot < 25"

definition spec_default :: "real \<Rightarrow> real \<Rightarrow> real \<Rightarrow> real \<Rightarrow> bool" where
  "spec_default env soc gov tot \<longleftrightarrow> tot < 25 \<and> Max {env, soc, gov} < 15"

definition spec_include :: "string \<Rightarrow> stock \<Rightarrow> bool" where
  "spec_include preference s =
     (let env = spec_sub_score s ''env'' ''environmental_score'';
          soc = spec_sub_score s ''soc'' ''social_score'';
          gov = spec_sub_score s ''gov'' ''governance_score'';
          tot = spec_sub_score s ''total'' ''esg_score''
      in if preference = net_zero then spec_net_zero env soc gov tot
         else if preference = multi_thematic then spec_multi_thematic env soc gov tot
         else if preference = solidarity then spec_solidarity env soc gov tot
         else spec_default env soc gov tot)"

section \<open>Floating-point values\<close>

text \<open>
  The numbers in a pandas series are IEEE doubles. They are modelled as real numbers
  together with the three special values that the arithmetic of the source can produce:
  \<open>NaN\<close>, which pandas uses for a missing observation, and the two infinities, which a
  division by zero yields. Rounding, overflow and the sign of zero are not modelled: a
  finite result is the exact real result. Where the rounding decides, at the two
  comparisons of a computed statistic with 0 in \<^verbatim>\<open>calculate_metrics\<close>, the operations
  are given a second time with the rounding made explicit, in the section on the
  double-precision evaluation of the statistics.
\<close>

datatype pyfloat = Fin real | PInf | NInf | NaN

fun fneg :: "pyfloat \<Rightarrow> pyfloat" where
  "fneg (Fin a) = Fin (- a)"
| "fneg PInf = NInf"
| "fneg NInf = PInf"
| "fneg NaN = NaN"

text \<open>The infinity with the sign of a real number; \<open>NaN\<close> for zero.\<close>

definition inf_of_sign :: "real \<Rightarrow> pyfloat" where
  "inf_of_sign a = (if 0 < a then PInf else if a < 0 then NInf else NaN)"

fun fadd :: "pyfloat \<Rightarrow> pyfloat \<Rightarrow> pyfloat" where
  "fadd (Fin a) (Fin b) = Fin (a + b)"
| "fadd NaN y = NaN"
| "fadd x NaN = NaN"
| "fadd PInf NInf = NaN"
| "fadd NInf PInf = NaN"
| "fadd PInf y = PInf"
| "fadd x PInf = PInf"
| "fadd NInf y = NInf"
| "fadd x NInf = NInf"

definition fsub :: "pyfloat \<Rightarrow> pyfloat \<Rightarrow> pyfloat" where
  "fsub x y = fadd x (fneg y)"

fun fmul :: "pyfloat \<Rightarrow> pyfloat \<Rightarrow> pyfloat" where
  "fmul (Fin a) (Fin b) = Fin (a * b)"
| "fmul NaN y = NaN"
| "fmul x NaN = NaN"
| "fmul PInf (Fin b) = inf_of_sign b"
| "fmul NInf (Fin b) = inf_of_sign (- b)"
| "fmul (Fin a) PInf = inf_of_sign a"
| "fmul (Fin a) NInf = inf_of_sign (- a)"
| "fmul PInf PInf = PInf"
| "fmul NInf NInf = PInf"
| "fmul PInf NInf = NInf"
| "fmul NInf PInf = NInf"

fun fdiv :: "pyfloat \<Rightarrow> pyfloat \<Rightarrow> pyfloat" where
  "fdiv (Fin a) (Fin b) = (if b = 0 then inf_of_sign a else Fin (a / b))"
| "fdiv NaN y = NaN"
| "fdiv x NaN = NaN"
| "fdiv (Fin a) PInf = Fin 0"
| "fdiv (Fin a) NInf = Fin 0"
| "fdiv PInf (Fin b) = (if 0 \<le> b then PInf else NInf)"
| "fdiv NInf (Fin b) = (if 0 \<le> b then NInf else PInf)"
| "fdiv PInf PInf = NaN"
| "fdiv PInf NInf = NaN"
| "fdiv NInf PInf = NaN"
| "fdiv NInf NInf = NaN"

text \<open>\<^verbatim>\<open>x ** n\<close> for a natural number \<open>n\<close>.\<close>

fun fpow :: "pyfloat \<Rightarrow> nat \<Rightarrow> pyfloat" where
  "fpow (Fin a) n = Fin (a ^ n)"
| "fpow PInf n = (if n = 0 then Fin 1 else PInf)"
| "fpow NInf n = (if n = 0 then Fin 1 else if even n then PInf else NInf)"
| "fpow NaN n = (if n = 0 then Fin 1 else NaN)"

fun fsqrt :: "pyfloat \<Rightarrow> pyfloat" where
  "fsqrt (Fin a) = (if a < 0 then NaN else Fin (sqrt a))"
| "fsqrt PInf = PInf"
| "fsqrt NInf = NaN"
| "fsqrt NaN = NaN"

text \<open>\<^verbatim>\<open>x < y\<close>: false as soon as one side is \<open>NaN\<close>.\<close>

fun fless :: "pyfloat \<Rightarrow> pyfloat \<Rightarrow> bool" where
  "fless (Fin a) (Fin b) = (a < b)"
| "fless NaN y = False"
| "fless x NaN = False"
| "fless x NInf = False"
| "fless PInf y = False"
| "fless NInf y = True"
| "fless x PInf = True"

section \<open>Series and the pandas operations the source calls\<close>

text \<open>
  A series is a list of observations in index order, each a date with its value; the
  empty list is \<^verbatim>\<open>pd.Series()\<close>. Dates are day numbers. The reductions below skip
  \<open>NaN\<close>, as the pandas methods do with their default \<^verbatim>\<open>skipna=True\<close>.
\<close>

type_synonym date = nat
type_synonym series = "(date \<times> pyfloat) list"
type_synonym close_series = "(date \<times> real) list"

definition dates :: "(date \<times> 'a) list \<Rightarrow> date list" where
  "dates s = map fst s"

definition vals :: "(date \<times> 'a) list \<Rightarrow> 'a list" where
  "vals s = map snd s"

text \<open>The sum of the values, a \<open>NaN\<close> counted as 0, and the number of values that are not \<open>NaN\<close>.\<close>

fun nansum :: "pyfloat list \<Rightarrow> pyfloat" where
  "nansum [] = Fin 0"
| "nansum (v # vs) = fadd (if v = NaN then Fin 0 else v) (nansum vs)"

text \<open>The plain sum of the values: a \<open>NaN\<close> among them makes the sum \<open>NaN\<close>.\<close>

fun fsum :: "pyfloat list \<Rightarrow> pyfloat" where
  "fsum [] = Fin 0"
| "fsum (v # vs) = fadd v (fsum vs)"

definition count_valid :: "pyfloat list \<Rightarrow> nat" where
  "count_valid vs = length (filter (\<lambda>v. v \<noteq> NaN) vs)"

text \<open>\<^verbatim>\<open>Series.mean()\<close>\<close>

definition mean :: "pyfloat list \<Rightarrow> pyfloat" where
  "mean vs = (if count_valid vs = 0 then NaN
              else fdiv (nansum vs) (Fin (real (count_valid vs))))"

text \<open>
  \<^verbatim>\<open>Series.var()\<close>, with one degree of freedom removed: \<open>NaN\<close> with fewer than two
  observations; else the squared deviations from the mean, put to 0 at the places where
  the series has \<open>NaN\<close>, summed plainly and divided by the count less one. A series with
  an infinite value has the mean infinite or \<open>NaN\<close>, a deviation \<open>NaN\<close>, and so the
  variance \<open>NaN\<close>. The arithmetic is exact here; the same operations with every result
  rounded to a double are \<open>var_rounded\<close> below, which is where the two differ: the exact
  variance of equal values is 0, the rounded one need not be.
\<close>

definition var :: "pyfloat list \<Rightarrow> pyfloat" where
  "var vs =
     (if count_valid vs \<le> 1 then NaN
      else let avg = fdiv (nansum vs) (Fin (real (count_valid vs)));
               sqr = map (\<lambda>v. if v = NaN then Fin 0 else fpow (fsub avg v) 2) vs
           in fdiv (fsum sqr) (Fin (real (count_valid vs - 1))))"

text \<open>\<^verbatim>\<open>Series.std()\<close>\<close>

definition std :: "pyfloat list \<Rightarrow> pyfloat" where
  "std vs = fsqrt (var vs)"

text \<open>The larger and the smaller of two values, a \<open>NaN\<close> standing for no value yet.\<close>

definition nanmax2 :: "pyfloat \<Rightarrow> pyfloat \<Rightarrow> pyfloat" where
  "nanmax2 a b = (if a = NaN then b else if b = NaN then a else if fless a b then b else a)"

definition nanmin2 :: "pyfloat \<Rightarrow> pyfloat \<Rightarrow> pyfloat" where
  "nanmin2 a b = (if a = NaN then b else if b = NaN then a else if fless b a then b else a)"

text \<open>\<^verbatim>\<open>Series.min()\<close>: the least value that is not \<open>NaN\<close>, and \<open>NaN\<close> when there is none.\<close>

definition nanmin :: "pyfloat list \<Rightarrow> pyfloat" where
  "nanmin vs = foldl nanmin2 NaN vs"

text \<open>
  \<^verbatim>\<open>Series.cumprod()\<close>: the running product of the values that are not \<open>NaN\<close>, with
  \<open>NaN\<close> kept at the places where the input has it.
\<close>

fun cumprod_from :: "pyfloat \<Rightarrow> pyfloat list \<Rightarrow> pyfloat list" where
  "cumprod_from acc [] = []"
| "cumprod_from acc (v # vs) =
     (if v = NaN then NaN # cumprod_from acc vs
      else fmul acc v # cumprod_from (fmul acc v) vs)"

definition cumprod :: "pyfloat list \<Rightarrow> pyfloat list" where
  "cumprod vs = cumprod_from (Fin 1) vs"

text \<open>
  \<^verbatim>\<open>Series.expanding().max()\<close>: at each place the largest value seen so far that is not
  \<open>NaN\<close>, and \<open>NaN\<close> as long as there is none (the window needs one observation).
\<close>

fun expanding_max_from :: "pyfloat \<Rightarrow> pyfloat list \<Rightarrow> pyfloat list" where
  "expanding_max_from m [] = []"
| "expanding_max_from m (v # vs) = nanmax2 m v # expanding_max_from (nanmax2 m v) vs"

definition expanding_max :: "pyfloat list \<Rightarrow> pyfloat list" where
  "expanding_max vs = expanding_max_from NaN vs"

text \<open>
  \<^verbatim>\<open>Series.pct_change()\<close> of a series of prices: no value at the first date, and at each
  later date the price over the previous price, less one. Prices are finite numbers.
\<close>

fun pct_rest :: "real \<Rightarrow> close_series \<Rightarrow> series" where
  "pct_rest prev [] = []"
| "pct_rest prev ((d, p) # ps) = (d, fsub (fdiv (Fin p) (Fin prev)) (Fin 1)) # pct_rest p ps"

fun pct_change :: "close_series \<Rightarrow> series" where
  "pct_change [] = []"
| "pct_change ((d, p) # ps) = (d, NaN) # pct_rest p ps"

text \<open>
  The alignment of two series before \<^verbatim>\<open>a.cov(b)\<close>: two series with the same index are
  paired place by place; else they are joined on their dates, every value of a date in
  the one with every value of that date in the other.
\<close>

definition joined :: "series \<Rightarrow> series \<Rightarrow> (pyfloat \<times> pyfloat) list" where
  "joined a b =
     (if dates a = dates b then zip (vals a) (vals b)
      else concat (map (\<lambda>(d, x). map (\<lambda>(d', y). (x, y)) (filter (\<lambda>(d', y). d' = d) b)) a))"

text \<open>
  \<^verbatim>\<open>a.cov(b)\<close>: the two series are aligned, the pairs with a \<open>NaN\<close> are left out, and
  the sample covariance of the remaining pairs is returned, as \<^verbatim>\<open>numpy.cov\<close> computes
  it: the products of the deviations from the two means, summed plainly and multiplied by
  the inverse of the count less one. An infinite value among the pairs makes a deviation
  \<open>NaN\<close>, and so the covariance.
\<close>

definition cov :: "series \<Rightarrow> series \<Rightarrow> pyfloat" where
  "cov a b =
     (let ps = filter (\<lambda>(x, y). x \<noteq> NaN \<and> y \<noteq> NaN) (joined a b);
          n = length ps
      in if n = 0 then NaN
         else let ma = fdiv (fsum (map fst ps)) (Fin (real n));
                  mb = fdiv (fsum (map snd ps)) (Fin (real n));
                  c = fsum (map (\<lambda>(x, y). fmul (fsub x ma) (fsub y mb)) ps)
              in fmul c (fdiv (Fin 1) (Fin (real (n - 1)))))"

section \<open>The data source\<close>

text \<open>
  The market-data provider is outside the core; it is a parameter of the model. A call of
  \<^verbatim>\<open>yf.Ticker(t).history(start, end)\<close> for the selected date range either raises, or
  returns a frame: \<open>None\<close> is a frame without the column \<^verbatim>\<open>Close\<close>, \<open>Some cs\<close> a frame
  whose column \<^verbatim>\<open>Close\<close> is \<open>cs\<close> (empty when the frame has no rows).
\<close>

datatype exn = KeyError | ZeroDivisionError | ValueError | ProviderError

type_synonym history = "string \<Rightarrow> exn + close_series option"

text \<open>
  What \<^verbatim>\<open>get_stock_data\<close> (lines 72-136) reads from the provider for a ticker, when none
  of its calls raises and the history of the last year and \<^verbatim>\<open>info\<close> are not empty: the
  entries of \<^verbatim>\<open>info\<close> it reads, the four scores of \<^verbatim>\<open>sustainability\<close> in the order total,
  environment, social, governance (\<open>None\<close> when they cannot be read), and the volatility
  it computes from the prices of the last year.
\<close>

record provider_data =
  info_sector :: "string option"
  info_country :: "string option"
  sustainability :: "(real \<times> real \<times> real \<times> real) option"
  hist_volatility :: real

type_synonym provider = "string \<Rightarrow> provider_data option"

definition get_stock_data :: "provider \<Rightarrow> string \<Rightarrow> stock option" where
  "get_stock_data src t =
     (case src t of
        None \<Rightarrow> None
      | Some r \<Rightarrow>
          let esg_data = (case sustainability r of
                            Some e \<Rightarrow> e
                          | None \<Rightarrow> (19, 10, 4, 5))
          in case esg_data of (tot, env, soc, gov) \<Rightarrow>
               Some \<lparr>ticker = t,
                     sector = (case info_sector r of None \<Rightarrow> ''N/A'' | Some x \<Rightarrow> x),
                     country = (case info_country r of None \<Rightarrow> ''N/A'' | Some x \<Rightarrow> x),
                     nums = [''volatility'' \<mapsto> hist_volatility r,
                             ''esg_score'' \<mapsto> tot,
                             ''environmental_score'' \<mapsto> env,
                             ''social_score'' \<mapsto> soc,
                             ''governance_score'' \<mapsto> gov]\<rparr>)"

section \<open>The series builder (data_manager.py, lines 139-207)\<close>

text \<open>
  The two frames \<^verbatim>\<open>data\<close> and \<^verbatim>\<open>returns\<close> of \<^verbatim>\<open>get_portfolio_historical_data\<close> are
  filled in step. The state of the loop holds their common index (\<open>None\<close> while the
  frames are empty), the columns of \<^verbatim>\<open>returns\<close> and the two lists of valid tickers and
  weights. The columns of \<^verbatim>\<open>data\<close> are never read again and are left out.
\<close>

record frames =
  index :: "date list option"
  columns :: "(string \<times> pyfloat list) list"
  valid_tickers :: "string list"
  valid_weights :: "real list"

definition no_frames :: frames where
  "no_frames = \<lparr>index = None, columns = [], valid_tickers = [], valid_weights = []\<rparr>"

text \<open>
  Assigning a series as a column of a frame that has an index: the values are taken as
  they are when the series has the index of the frame; else the series is reindexed, which
  raises when a date occurs twice in it, and gives \<open>NaN\<close> at a date of the frame that the
  series does not have.
\<close>

definition reindex :: "date list \<Rightarrow> series \<Rightarrow> exn + pyfloat list" where
  "reindex idx s =
     (if dates s = idx then Inr (vals s)
      else if \<not> distinct (dates s) then Inl ValueError
      else Inr (map (\<lambda>d. case map_of s d of None \<Rightarrow> NaN | Some v \<Rightarrow> v) idx))"

text \<open>\<^verbatim>\<open>returns[ticker] = s\<close>: the first column gives the frame its index.\<close>

definition set_column :: "frames \<Rightarrow> string \<Rightarrow> series \<Rightarrow> exn + frames" where
  "set_column st t s =
     (case index st of
        None \<Rightarrow> Inr (st\<lparr>index := Some (dates s), columns := (t, vals s) # columns st\<rparr>)
      | Some idx \<Rightarrow>
          (case reindex idx s of
             Inl e \<Rightarrow> Inl e
           | Inr vs \<Rightarrow> Inr (st\<lparr>columns := (t, vs) # columns st\<rparr>)))"

text \<open>The loop of lines 153-161 over \<^verbatim>\<open>zip(tickers, weights)\<close>.\<close>

fun fetch_loop :: "history \<Rightarrow> (string \<times> real) list \<Rightarrow> frames \<Rightarrow> exn + frames" where
  "fetch_loop h [] st = Inr st"
| "fetch_loop h ((t, w) # rest) st =
     (case h t of
        Inl e \<Rightarrow> Inl e
      | Inr None \<Rightarrow> fetch_loop h rest st
      | Inr (Some cs) \<Rightarrow>
          if cs = [] then fetch_loop h rest st
          else (case set_column st t (pct_change cs) of
                  Inl e \<Rightarrow> Inl e
                | Inr st' \<Rightarrow>
                    fetch_loop h rest
                      (st'\<lparr>valid_tickers := valid_tickers st' @ [t],
                           valid_weights := valid_weights st' @ [w]\<rparr>)))"

text \<open>
  The loop of lines 172-173: \<^verbatim>\<open>portfolio_returns += returns[ticker] * weight\<close>. All
  columns have the length of the index, so the sum is taken place by place.
\<close>

fun add_columns ::
  "(string \<times> pyfloat list) list \<Rightarrow> (string \<times> real) list \<Rightarrow> pyfloat list \<Rightarrow> exn + pyfloat list"
where
  "add_columns cols [] acc = Inr acc"
| "add_columns cols ((t, w) # rest) acc =
     (case map_of cols t of
        None \<Rightarrow> Inl KeyError
      | Some col \<Rightarrow>
          add_columns cols rest (map (\<lambda>(a, v). fadd a (fmul v (Fin w))) (zip acc col)))"

text \<open>The body of the \<^verbatim>\<open>try\<close> block, lines 145-178.\<close>

definition portfolio_body :: "history \<Rightarrow> string list \<Rightarrow> real list \<Rightarrow> exn + series \<times> series" where
  "portfolio_body h tickers weights =
     (if tickers = [] \<or> weights = [] then Inr ([], [])
      else case fetch_loop h (zip tickers weights) no_frames of
        Inl e \<Rightarrow> Inl e
      | Inr st \<Rightarrow>
          if valid_tickers st = [] then Inr ([], [])
          else let total_weight = sum_list (valid_weights st) in
            if total_weight = 0 then Inl ZeroDivisionError
            else let normalized_weights = map (\<lambda>w. w / total_weight) (valid_weights st);
                     idx = (case index st of None \<Rightarrow> [] | Some i \<Rightarrow> i)
                 in case add_columns (columns st) (zip (valid_tickers st) normalized_weights)
                           (replicate (length idx) (Fin 0)) of
                      Inl e \<Rightarrow> Inl e
                    | Inr portfolio_returns \<Rightarrow>
                        Inr (zip idx (map (\<lambda>v. fmul v (Fin 100))
                                       (cumprod (map (fadd (Fin 1)) portfolio_returns))),
                             zip idx portfolio_returns))"

text \<open>
  \<^verbatim>\<open>get_portfolio_historical_data\<close>: the body, and the handler of line 180, which turns
  every exception of the body into the pair of empty series. The result is \<open>Inr\<close> of the
  pair (value series, return series) when the call returns.
\<close>

definition get_portfolio_historical_data ::
  "history \<Rightarrow> string list \<Rightarrow> real list \<Rightarrow> exn + series \<times> series" where
  "get_portfolio_historical_data h tickers weights =
     (case portfolio_body h tickers weights of
        Inl e \<Rightarrow> Inr ([], [])
      | Inr r \<Rightarrow> Inr r)"

text \<open>The body of \<^verbatim>\<open>get_benchmark_data\<close>, lines 190-203, and the function with its handler.\<close>

definition benchmark_body :: "history \<Rightarrow> string \<Rightarrow> exn + series \<times> series" where
  "benchmark_body h benchmark =
     (if benchmark = [] then Inr ([], [])
      else case h benchmark of
        Inl e \<Rightarrow> Inl e
      | Inr None \<Rightarrow> Inr ([], [])
      | Inr (Some []) \<Rightarrow> Inr ([], [])
      | Inr (Some ((d0, p0) # rest)) \<Rightarrow>
          let close_prices = (d0, p0) # rest in
          Inr (map (\<lambda>(d, p). (d, fmul (fdiv (Fin p) (Fin p0)) (Fin 100))) close_prices,
               pct_change close_prices))"

definition get_benchmark_data :: "history \<Rightarrow> string \<Rightarrow> exn + series \<times> series" where
  "get_benchmark_data h benchmark =
     (case benchmark_body h benchmark of
        Inl e \<Rightarrow> Inr ([], [])
      | Inr r \<Rightarrow> Inr r)"

section \<open>The performance metrics (data_manager.py, lines 209-256)\<close>

text \<open>
  The result is a dict from the names of the metrics to their values. The operations of
  the body are operations of pandas and numpy on floating-point series, none of which
  raises, so the handler of line 254 is never entered and the function is the body.
\<close>

definition sqrt_252 :: pyfloat where
  "sqrt_252 = Fin (sqrt 252)"

definition risk_free_rate :: real where
  "risk_free_rate = 2 / 100"

definition annualized :: "pyfloat \<Rightarrow> pyfloat" where
  "annualized m = fsub (fpow (fadd (Fin 1) m) 252) (Fin 1)"

definition sharpe_ratio :: "pyfloat list \<Rightarrow> pyfloat" where
  "sharpe_ratio rs =
     (let excess_returns = map (\<lambda>r. fsub r (Fin (risk_free_rate / 252))) rs
      in if std rs \<noteq> Fin 0 then fdiv (fmul sqrt_252 (mean excess_returns)) (std rs)
         else Fin 0)"

definition max_drawdown :: "pyfloat list \<Rightarrow> pyfloat" where
  "max_drawdown rs =
     (let cum_returns = cumprod (map (fadd (Fin 1)) rs);
          rolling_max = expanding_max cum_returns;
          drawdowns = map (\<lambda>(c, m). fsub (fdiv c m) (Fin 1)) (zip cum_returns rolling_max)
      in nanmin drawdowns)"

definition calculate_metrics :: "series \<Rightarrow> series option \<Rightarrow> (string \<rightharpoonup> pyfloat)" where
  "calculate_metrics returns benchmark_returns =
     (if returns = [] then Map.empty
      else
        let rs = vals returns;
            annualized_return = annualized (mean rs);
            metrics = [''annualized_return'' \<mapsto> annualized_return,
                       ''annualized_volatility'' \<mapsto> fmul (std rs) sqrt_252,
                       ''sharpe_ratio'' \<mapsto> sharpe_ratio rs,
                       ''max_drawdown'' \<mapsto> max_drawdown rs]
        in case benchmark_returns of
             None \<Rightarrow> metrics
           | Some b \<Rightarrow>
               if b = [] then metrics
               else
                 let covariance = cov returns b;
                     variance = var (vals b)
                 in if variance \<noteq> Fin 0 then
                      let beta = fdiv covariance variance in
                      metrics(''beta'' \<mapsto> beta,
                              ''alpha'' \<mapsto>
                                fsub (fsub annualized_return (Fin risk_free_rate))
                                  (fmul beta
                                     (fsub (fsub (fpow (fadd (Fin 1) (mean (vals b))) 252) (Fin 1))
                                        (Fin risk_free_rate))))
                    else metrics(''beta'' \<mapsto> Fin 1, ''alpha'' \<mapsto> Fin 0))"

section \<open>The portfolio aggregator (data_manager.py, lines 258-347)\<close>

text \<open>
  The result is a dict with eight fixed keys. The two exposure dicts keep their keys in
  the order of insertion. A portfolio is a dict from tickers to weights: the list of its
  items, each ticker once.
\<close>

record portfolio_metrics =
  volatility :: real
  esg_score :: real
  environmental_score :: real
  social_score :: real
  governance_score :: real
  sector_exposure :: "(string \<times> real) list"
  country_exposure :: "(string \<times> real) list"
  performance_metrics :: "string \<rightharpoonup> pyfloat"

definition initial_metrics :: portfolio_metrics where
  "initial_metrics =
     \<lparr>volatility = 0, esg_score = 0, environmental_score = 0, social_score = 0,
      governance_score = 0, sector_exposure = [], country_exposure = [],
      performance_metrics = Map.empty\<rparr>"

text \<open>\<^verbatim>\<open>d[k] = d.get(k, 0) + x\<close>\<close>

fun bump :: "(string \<times> real) list \<Rightarrow> string \<Rightarrow> real \<Rightarrow> (string \<times> real) list" where
  "bump [] k x = [(k, 0 + x)]"
| "bump ((k', v) # d) k x = (if k' = k then (k', v + x) # d else (k', v) # bump d k x)"

text \<open>
  The dict comprehension of lines 293-296; \<^verbatim>\<open>portfolio[stock["ticker"]]\<close> raises when the
  portfolio has no such ticker.
\<close>

fun filtered_portfolio :: "(string \<times> real) list \<Rightarrow> stock list \<Rightarrow> exn + (string \<times> real) list" where
  "filtered_portfolio portfolio [] = Inr []"
| "filtered_portfolio portfolio (s # stocks_data) =
     (case map_of portfolio (ticker s) of
        None \<Rightarrow> Inl KeyError
      | Some w \<Rightarrow>
          (case filtered_portfolio portfolio stocks_data of
             Inl e \<Rightarrow> Inl e
           | Inr r \<Rightarrow> Inr ((ticker s, w) # r)))"

text \<open>
  The body of the loop of lines 326-341 for a ticker with a record. The result is the
  dict \<^verbatim>\<open>metrics\<close> after the body, or at the statement that raises, together with the
  exception if there is one.
\<close>

definition esg_step ::
  "real \<Rightarrow> stock \<Rightarrow> real \<Rightarrow> portfolio_metrics \<Rightarrow> exn option \<times> portfolio_metrics" where
  "esg_step total_weight data weight m0 =
     (if total_weight = 0 then (Some ZeroDivisionError, m0)
      else
        let weight_normalized = weight / total_weight in
        case nums data ''esg_score'' of
          None \<Rightarrow> (Some KeyError, m0)
        | Some e \<Rightarrow>
        let m1 = m0\<lparr>esg_score := esg_score m0 + e * weight_normalized\<rparr> in
        case nums data ''environmental_score'' of
          None \<Rightarrow> (Some KeyError, m1)
        | Some e \<Rightarrow>
        let m2 = m1\<lparr>environmental_score := environmental_score m1 + e * weight_normalized\<rparr> in
        case nums data ''social_score'' of
          None \<Rightarrow> (Some KeyError, m2)
        | Some e \<Rightarrow>
        let m3 = m2\<lparr>social_score := social_score m2 + e * weight_normalized\<rparr> in
        case nums data ''governance_score'' of
          None \<Rightarrow> (Some KeyError, m3)
        | Some e \<Rightarrow>
        let m4 = m3\<lparr>governance_score := governance_score m3 + e * weight_normalized\<rparr>;
            m5 = (if sector data \<noteq> ''N/A''
                  then m4\<lparr>sector_exposure :=
                            bump (sector_exposure m4) (sector data) weight_normalized\<rparr>
                  else m4);
            m6 = (if country data \<noteq> ''N/A''
                  then m5\<lparr>country_exposure :=
                            bump (country_exposure m5) (country data) weight_normalized\<rparr>
                  else m5)
        in (None, m6))"

fun esg_loop ::
  "provider \<Rightarrow> real \<Rightarrow> (string \<times> real) list \<Rightarrow> portfolio_metrics
     \<Rightarrow> exn option \<times> portfolio_metrics" where
  "esg_loop src total_weight [] m = (None, m)"
| "esg_loop src total_weight ((t, w) # rest) m =
     (case get_stock_data src t of
        None \<Rightarrow> esg_loop src total_weight rest m
      | Some data \<Rightarrow>
          (case esg_step total_weight data w m of
             (Some e, m') \<Rightarrow> (Some e, m')
           | (None, m') \<Rightarrow> esg_loop src total_weight rest m'))"

text \<open>Lines 282-286: the records of the tickers that resolve, in the order of the portfolio.\<close>

definition resolve :: "provider \<Rightarrow> string list \<Rightarrow> stock list" where
  "resolve src ts = List.map_filter (get_stock_data src) ts"

text \<open>Lines 289-297: the portfolio restricted to the stocks that pass the filter.\<close>

definition restrict_portfolio ::
  "provider \<Rightarrow> (string \<times> real) list \<Rightarrow> string option \<Rightarrow> exn + (string \<times> real) list" where
  "restrict_portfolio src portfolio sustainability_preference =
     (case sustainability_preference of
        None \<Rightarrow> Inr portfolio
      | Some preference \<Rightarrow>
          if preference = [] then Inr portfolio
          else filtered_portfolio portfolio
                 (filter_stocks_by_preference (resolve src (map fst portfolio)) preference))"

text \<open>Lines 308-310: the return series of the benchmark, when a benchmark is given.\<close>

definition fetch_benchmark :: "history \<Rightarrow> string option \<Rightarrow> exn + series option" where
  "fetch_benchmark h benchmark =
     (case benchmark of
        None \<Rightarrow> Inr None
      | Some b \<Rightarrow>
          if b = [] then Inr None
          else (case get_benchmark_data h b of
                  Inl e \<Rightarrow> Inl e
                | Inr (benchmark_values, benchmark_returns) \<Rightarrow> Inr (Some benchmark_returns)))"

text \<open>
  The body of the \<^verbatim>\<open>try\<close> block, lines 281-343: the dict \<^verbatim>\<open>metrics\<close> when the body
  returns or raises, and the exception if it raises.
\<close>

definition metrics_body ::
  "provider \<Rightarrow> history \<Rightarrow> (string \<times> real) list \<Rightarrow> string option \<Rightarrow> string option
     \<Rightarrow> exn option \<times> portfolio_metrics" where
  "metrics_body src h portfolio0 benchmark sustainability_preference =
     (case restrict_portfolio src portfolio0 sustainability_preference of
        Inl e \<Rightarrow> (Some e, initial_metrics)
      | Inr portfolio \<Rightarrow>
     (case get_portfolio_historical_data h (map fst portfolio) (map snd portfolio) of
        Inl e \<Rightarrow> (Some e, initial_metrics)
      | Inr (portfolio_values, portfolio_returns) \<Rightarrow>
     (case fetch_benchmark h benchmark of
        Inl e \<Rightarrow> (Some e, initial_metrics)
      | Inr benchmark_returns \<Rightarrow>
          let metrics =
                (if portfolio_returns \<noteq> []
                 then initial_metrics\<lparr>performance_metrics :=
                        calculate_metrics portfolio_returns benchmark_returns\<rparr>
                 else initial_metrics);
              valid_weights =
                map snd (filter (\<lambda>(t, w). get_stock_data src t \<noteq> None) portfolio)
          in if valid_weights = [] then (None, metrics)
             else esg_loop src (sum_list valid_weights) portfolio metrics)))"

text \<open>
  \<^verbatim>\<open>calculate_portfolio_metrics\<close>: the early return of line 277, and the body with the
  handler of line 345, which returns the dict as the body left it. The date range is
  that of the history \<open>h\<close>.
\<close>

definition calculate_portfolio_metrics ::
  "provider \<Rightarrow> history \<Rightarrow> (string \<times> real) list \<Rightarrow> string option \<Rightarrow> string option
     \<Rightarrow> exn + portfolio_metrics" where
  "calculate_portfolio_metrics src h portfolio benchmark sustainability_preference =
     (if portfolio = [] then Inr initial_metrics
      else Inr (snd (metrics_body src h portfolio benchmark sustainability_preference)))"

section \<open>The quantities of the specification\<close>

text \<open>
  The statistics of the specification, over the observations of a series as real numbers:
  the mean, the sample variance, standard deviation and covariance (with the count less
  one as denominator), and the maximum drawdown.
\<close>

text \<open>The observations of a series: its values that are numbers, in order.\<close>

fun observed :: "pyfloat list \<Rightarrow> real list" where
  "observed [] = []"
| "observed (Fin x # vs) = x # observed vs"
| "observed (v # vs) = observed vs"

fun observed_pairs :: "(pyfloat \<times> pyfloat) list \<Rightarrow> (real \<times> real) list" where
  "observed_pairs [] = []"
| "observed_pairs ((Fin x, Fin y) # ps) = (x, y) # observed_pairs ps"
| "observed_pairs (p # ps) = observed_pairs ps"

text \<open>A series without infinite values.\<close>

definition no_inf :: "pyfloat list \<Rightarrow> bool" where
  "no_inf vs \<longleftrightarrow> list_all (\<lambda>v. v \<noteq> PInf \<and> v \<noteq> NInf) vs"

definition spec_mean :: "real list \<Rightarrow> real" where
  "spec_mean xs = sum_list xs / real (length xs)"

definition spec_variance :: "real list \<Rightarrow> real" where
  "spec_variance xs = (\<Sum>x\<leftarrow>xs. (x - spec_mean xs)\<^sup>2) / real (length xs - 1)"

definition spec_stddev :: "real list \<Rightarrow> real" where
  "spec_stddev xs = sqrt (spec_variance xs)"

definition spec_covariance :: "(real \<times> real) list \<Rightarrow> real" where
  "spec_covariance ps =
     (\<Sum>(x, y)\<leftarrow>ps. (x - spec_mean (map fst ps)) * (y - spec_mean (map snd ps)))
       / real (length ps - 1)"

text \<open>\<open>cumProd[i]\<close>: the product of \<open>1 + return[j]\<close> over \<open>j \<le> i\<close>.\<close>

definition cum_prod_at :: "real list \<Rightarrow> nat \<Rightarrow> real" where
  "cum_prod_at xs i = prod_list (map (\<lambda>x. 1 + x) (take (Suc i) xs))"

text \<open>The prefix maximum of \<open>cumProd\<close> over \<open>0..i\<close>.\<close>

definition running_max_at :: "real list \<Rightarrow> nat \<Rightarrow> real" where
  "running_max_at xs i = Max (cum_prod_at xs ` {..i})"

definition spec_drawdown_at :: "real list \<Rightarrow> nat \<Rightarrow> real" where
  "spec_drawdown_at xs i = cum_prod_at xs i / running_max_at xs i - 1"

definition spec_max_drawdown :: "real list \<Rightarrow> real" where
  "spec_max_drawdown xs = Min (spec_drawdown_at xs ` {..<length xs})"

text \<open>A ticker without a usable price series: the provider raises, or the frame has no
  column \<^verbatim>\<open>Close\<close>, or no rows.\<close>

definition no_prices :: "history \<Rightarrow> string \<Rightarrow> bool" where
  "no_prices h t = (case h t of Inr (Some (p # ps)) \<Rightarrow> False | _ \<Rightarrow> True)"

text \<open>
  The weighted aggregate of the specification: over the items of a weights map, the sum
  of the score of each asset times its weight, divided by the sum of the weights. The score
  of an asset is the entry of its record, and the sector that of its record.
\<close>

definition record_score :: "provider \<Rightarrow> string \<Rightarrow> string \<Rightarrow> real" where
  "record_score src k t =
     (case get_stock_data src t of
        None \<Rightarrow> 0
      | Some d \<Rightarrow> (case nums d k of None \<Rightarrow> 0 | Some v \<Rightarrow> v))"

definition record_sector :: "provider \<Rightarrow> string \<Rightarrow> string" where
  "record_sector src t = (case get_stock_data src t of None \<Rightarrow> ''N/A'' | Some d \<Rightarrow> sector d)"

definition spec_weighted_score :: "provider \<Rightarrow> string \<Rightarrow> (string \<times> real) list \<Rightarrow> real" where
  "spec_weighted_score src k q =
     (\<Sum>(t, w)\<leftarrow>q. record_score src k t * w) / sum_list (map snd q)"

text \<open>
  The items of the weights map that the aggregator works with: all of them without a
  strategy, and with a strategy those whose record passes the eligibility filter.
\<close>

definition survivors :: "provider \<Rightarrow> (string \<times> real) list \<Rightarrow> string option \<Rightarrow> (string \<times> real) list" where
  "survivors src p sustainability_preference =
     (case sustainability_preference of
        None \<Rightarrow> p
      | Some preference \<Rightarrow>
          if preference = [] then p
          else filter (\<lambda>(t, w). case get_stock_data src t of
                                    None \<Rightarrow> False
                                  | Some d \<Rightarrow> spec_include preference d) p)"

text \<open>
  The return series as the specification describes it: at each date but the first, the
  price over the previous price, less one; the first date is dropped.
\<close>

definition spec_return_series :: "close_series \<Rightarrow> series" where
  "spec_return_series cs =
     map (\<lambda>i. (fst (cs ! i), Fin (snd (cs ! i) / snd (cs ! (i - 1)) - 1))) [1..<length cs]"

section \<open>Double-precision evaluation of the statistics\<close>

text \<open>
  The operations on floating-point values above are exact, and the source compares a
  computed standard deviation (line 228) and a computed variance (line 244) with 0: there
  the rounding of the double-precision operations decides. The definitions of this section
  replay the operations of \<^verbatim>\<open>mean()\<close>, \<^verbatim>\<open>var()\<close>, \<^verbatim>\<open>std()\<close>, \<^verbatim>\<open>cov()\<close> and of
  lines 221-229 and 241-247 on a series of finite values without \<open>NaN\<close>, every
  operation followed by a rounding \<open>rnd\<close>. With the identity as rounding they are the exact
  operations; with \<open>to_double\<close> they are those of IEEE 754 double precision.
\<close>

text \<open>Rounding a real number to the nearest integer, a tie to the even one.\<close>

definition round_even :: "real \<Rightarrow> int" where
  "round_even x =
     (let f = \<lfloor>x\<rfloor>; r = x - of_int f
      in if r < 1 / 2 then f else if 1 / 2 < r then f + 1 else if even f then f else f + 1)"

definition pow2 :: "int \<Rightarrow> real" where
  "pow2 e = (if 0 \<le> e then 2 ^ nat e else 1 / 2 ^ nat (- e))"

text \<open>
  Rounding a real number to the nearest double, a tie to the even significand: a double
  with the exponent \<open>e\<close> is a multiple of 2 to the power \<open>e - 52\<close>, and the least exponent is -1022.
  Overflow is left out: a number of magnitude 2 to the power 1024 or more is not rounded to an
  infinity.
\<close>

definition to_double :: "real \<Rightarrow> real" where
  "to_double x =
     (if x = 0 then 0
      else let e = max \<lfloor>log 2 \<bar>x\<bar>\<rfloor> (- 1022)
           in of_int (round_even (x / pow2 (e - 52))) * pow2 (e - 52))"

text \<open>
  The sum of an array, as numpy adds fewer than eight values: from left to right. (Longer
  arrays are added in blocks.)
\<close>

definition sum_rounded :: "(real \<Rightarrow> real) \<Rightarrow> real list \<Rightarrow> real" where
  "sum_rounded rnd xs = foldl (\<lambda>a x. rnd (a + x)) 0 xs"

definition mean_rounded :: "(real \<Rightarrow> real) \<Rightarrow> real list \<Rightarrow> real" where
  "mean_rounded rnd xs = rnd (sum_rounded rnd xs / real (length xs))"

text \<open>
  \<^verbatim>\<open>Series.var()\<close> on at least two values: the mean, the squares of the deviations of the
  values from it, their sum, divided by the count less one.
\<close>

definition var_rounded :: "(real \<Rightarrow> real) \<Rightarrow> real list \<Rightarrow> real" where
  "var_rounded rnd xs =
     (let avg = mean_rounded rnd xs;
          sqr = map (\<lambda>x. rnd (rnd (avg - x) * rnd (avg - x))) xs
      in rnd (sum_rounded rnd sqr / real (length xs - 1)))"

definition std_rounded :: "(real \<Rightarrow> real) \<Rightarrow> real list \<Rightarrow> real" where
  "std_rounded rnd xs = rnd (sqrt (var_rounded rnd xs))"

text \<open>Lines 225-231: the Sharpe ratio.\<close>

definition sharpe_rounded :: "(real \<Rightarrow> real) \<Rightarrow> real list \<Rightarrow> real" where
  "sharpe_rounded rnd xs =
     (let excess_returns = map (\<lambda>x. rnd (x - rnd (rnd (2 / 100) / 252))) xs
      in if std_rounded rnd xs \<noteq> 0
         then rnd (rnd (rnd (sqrt 252) * mean_rounded rnd excess_returns) / std_rounded rnd xs)
         else 0)"

text \<open>
  \<^verbatim>\<open>a.cov(b)\<close> on two series of the same index and at least two values, as \<^verbatim>\<open>numpy.cov\<close>
  computes it: the deviations from the two means, the sum of their products, multiplied by
  the inverse of the count less one.
\<close>

definition cov_rounded :: "(real \<Rightarrow> real) \<Rightarrow> real list \<Rightarrow> real list \<Rightarrow> real" where
  "cov_rounded rnd xs ys =
     (let dx = map (\<lambda>x. rnd (x - mean_rounded rnd xs)) xs;
          dy = map (\<lambda>y. rnd (y - mean_rounded rnd ys)) ys;
          c = sum_rounded rnd (map (\<lambda>(a, b). rnd (a * b)) (zip dx dy))
      in rnd (c * rnd (1 / real (length xs - 1))))"

text \<open>Line 221 and lines 240-250: the annualized return, beta and alpha.\<close>

definition annualized_rounded :: "(real \<Rightarrow> real) \<Rightarrow> real list \<Rightarrow> real" where
  "annualized_rounded rnd xs = rnd (rnd (rnd (1 + mean_rounded rnd xs) ^ 252) - 1)"

definition beta_rounded :: "(real \<Rightarrow> real) \<Rightarrow> real list \<Rightarrow> real list \<Rightarrow> real" where
  "beta_rounded rnd xs ys =
     (if var_rounded rnd ys \<noteq> 0 then rnd (cov_rounded rnd xs ys / var_rounded rnd ys) else 1)"

definition alpha_rounded :: "(real \<Rightarrow> real) \<Rightarrow> real list \<Rightarrow> real list \<Rightarrow> real" where
  "alpha_rounded rnd xs ys =
     (if var_rounded rnd ys \<noteq> 0
      then rnd (rnd (annualized_rounded rnd xs - rnd (2 / 100))
                - rnd (beta_rounded rnd xs ys
                       * rnd (annualized_rounded rnd ys - rnd (2 / 100))))
      else 0)"

text \<open>The double nearest to one tenth.\<close>

definition tenth :: real where
  "tenth = 3602879701896397 / 2 ^ 55"

section \<open>Auxiliary functions for the proofs\<close>

text \<open>
  The drawdowns of a list of observations computed in one pass, with the running product
  and the running maximum (\<open>None\<close> before the first observation) as accumulators.
\<close>

fun drawdowns_from :: "real \<Rightarrow> real option \<Rightarrow> real list \<Rightarrow> pyfloat list" where
  "drawdowns_from c m [] = []"
| "drawdowns_from c m (x # xs) =
     (let c' = c * (1 + x);
          m' = (case m of None \<Rightarrow> c' | Some a \<Rightarrow> max a c')
      in fsub (fdiv (Fin c') (Fin m')) (Fin 1) # drawdowns_from c' (Some m') xs)"

definition opt_float :: "real option \<Rightarrow> pyfloat" where
  "opt_float m = (case m of None \<Rightarrow> NaN | Some a \<Rightarrow> Fin a)"

text \<open>
  What holds of the frames while the loop of the series builder runs: as soon as there
  is a valid ticker, the index of the frames is the index of the return series of the
  first valid ticker, and the column of that ticker is its return series.
\<close>

definition frames_led :: "history \<Rightarrow> frames \<Rightarrow> bool" where
  "frames_led h st \<longleftrightarrow>
     (valid_tickers st = [] \<and> index st = None) \<or>
     (valid_tickers st \<noteq> [] \<and> valid_weights st \<noteq> [] \<and>
      (\<exists>cs. cs \<noteq> [] \<and> h (hd (valid_tickers st)) = Inr (Some cs) \<and>
            index st = Some (dates (pct_change cs)) \<and>
            map_of (columns st) (hd (valid_tickers st)) = Some (vals (pct_change cs))))"

text \<open>
  What holds of the frames while the loop of the series builder runs: the index of the
  frames is the list of the dates of the prices of the first valid ticker, and the column
  of every valid ticker is its return series, reindexed on the index of the frames.
\<close>

definition frames_reindexed :: "history \<Rightarrow> frames \<Rightarrow> bool" where
  "frames_reindexed h st \<longleftrightarrow>
     (case index st of
        None \<Rightarrow> valid_tickers st = []
      | Some idx \<Rightarrow>
          valid_tickers st \<noteq> [] \<and>
          (\<exists>cs0. h (hd (valid_tickers st)) = Inr (Some cs0) \<and> idx = dates cs0) \<and>
          (\<forall>t\<in>set (valid_tickers st). \<exists>cs col.
              h t = Inr (Some cs) \<and> map_of (columns st) t = Some col \<and>
              reindex idx (pct_change cs) = Inr col))"

section \<open>Example data\<close>

text \<open>Two records: one with an environmental score of 5, one without any ESG key.\<close>

definition stock_a :: stock where
  "stock_a = \<lparr>ticker = ''A'', sector = ''Technology'', country = ''France'',
              nums = [''env'' \<mapsto> 5, ''soc'' \<mapsto> 3, ''gov'' \<mapsto> 2, ''total'' \<mapsto> 10]\<rparr>"

definition stock_c :: stock where
  "stock_c = \<lparr>ticker = ''C'', sector = ''Technology'', country = ''France'',
              nums = Map.empty\<rparr>"

text \<open>A provider that knows the ticker A only, and a history without rows.\<close>

definition provider_a :: provider where
  "provider_a t =
     (if t = ''A''
      then Some \<lparr>info_sector = Some ''Technology'', info_country = Some ''France'',
                 sustainability = Some (10, 2, 3, 2), hist_volatility = 3 / 10\<rparr>
      else None)"

definition history_empty :: history where
  "history_empty t = Inr (Some [])"

text \<open>The two assets of the scenario of the specification, and a variant with a total
  score of 30 for the second.\<close>

definition provider_ab :: provider where
  "provider_ab t =
     (if t = ''A''
      then Some \<lparr>info_sector = Some ''Technology'', info_country = Some ''France'',
                 sustainability = Some (10, 2, 3, 2), hist_volatility = 3 / 10\<rparr>
      else if t = ''B''
      then Some \<lparr>info_sector = Some ''Utilities'', info_country = Some ''France'',
                 sustainability = Some (15, 3, 4, 3), hist_volatility = 2 / 10\<rparr>
      else None)"

definition provider_ab_high :: provider where
  "provider_ab_high t =
     (if t = ''A''
      then Some \<lparr>info_sector = Some ''Technology'', info_country = Some ''France'',
                 sustainability = Some (10, 2, 3, 2), hist_volatility = 3 / 10\<rparr>
      else if t = ''B''
      then Some \<lparr>info_sector = Some ''Utilities'', info_country = Some ''France'',
                 sustainability = Some (30, 3, 4, 3), hist_volatility = 2 / 10\<rparr>
      else None)"

text \<open>A history with two prices for the ticker A.\<close>

definition history_a :: history where
  "history_a t = (if t = ''A'' then Inr (Some [(0, 100), (1, 110)]) else Inr None)"

text \<open>
  A history with three prices for each of the tickers A and B, those of B one day later,
  and the frames that the loop of the series builder leaves for the two tickers.
\<close>

definition history_ab :: history where
  "history_ab t =
     (if t = ''A'' then Inr (Some [(0, 100), (1, 110), (2, 121)])
      else if t = ''B'' then Inr (Some [(1, 100), (2, 150), (3, 300)])
      else Inr None)"

definition frames_ab :: frames where
  "frames_ab =
     \<lparr>index = Some [0, 1, 2],
      columns = [(''B'', [NaN, NaN, Fin (1 / 2)]), (''A'', [NaN, Fin (1 / 10), Fin (1 / 10)])],
      valid_tickers = [''A'', ''B''],
      valid_weights = [1, 1]\<rparr>"

text \<open>The return series of the scenario of the specification.\<close>

definition series_scenario :: series where
  "series_scenario = [(0, Fin (1 / 100)), (1, Fin (- 2 / 100)), (2, Fin (3 / 100))]"

section \<open>Results on the eligibility filter\<close>

lemma filter_loop_filter:
  "filter_loop preference stocks acc = acc @ filter (keeps preference) stocks"
  by (induction stocks arbitrary: acc) simp_all

lemma filter_stocks_filter:
  "filter_stocks_by_preference stocks preference = filter (keeps preference) stocks"
  by (simp add: filter_stocks_by_preference_def filter_loop_filter)

lemma spec_sub_score_get2: "spec_sub_score s k1 k2 = get2 s k1 k2"
  by (auto simp: spec_sub_score_def get2_def split: option.splits)

lemma Max_of_three: "Max {a, b, c :: real} = max (max a b) c"
  by (simp add: max.assoc)

lemma keeps_spec_include: "keeps preference s = spec_include preference s"
  by (simp add: keeps_def spec_include_def Let_def spec_sub_score_get2 env_score_def
      soc_score_def gov_score_def total_score_def spec_net_zero_def spec_multi_thematic_def
      spec_solidarity_def spec_default_def Max_of_three)

lemma no_esg_keys_scores:
  assumes "no_esg_keys s"
  shows "env_score s = 0" "soc_score s = 0" "gov_score s = 0" "total_score s = 0"
  using assms
  by (simp_all add: no_esg_keys_def esg_keys_def env_score_def soc_score_def gov_score_def
      total_score_def get2_def)

lemma no_esg_keys_keeps: "no_esg_keys s \<Longrightarrow> keeps preference s"
  by (simp add: keeps_def no_esg_keys_scores)

text \<open>
  Claim C1. For every list of asset records and every strategy name, the filter returns
  the records of the list that satisfy the predicate of the strategy, in the order of the
  list: an asset is in the output exactly when it is in the input and its sub-scores
  satisfy the predicate (Net Zero, multi-thematic ESG, solidarity, or the default for every
  other name), a missing sub-score read as 0. An asset of the input with none of the ESG
  keys is in the output under every strategy.
\<close>

theorem filter_includes_iff_predicate:
  "filter_stocks_by_preference stocks preference = filter (spec_include preference) stocks \<and>
   (s \<in> set (filter_stocks_by_preference stocks preference)
      \<longleftrightarrow> s \<in> set stocks \<and> spec_include preference s) \<and>
   (s \<in> set stocks \<and> no_esg_keys s
      \<longrightarrow> s \<in> set (filter_stocks_by_preference stocks preference))"
proof -
  have same: "keeps preference = spec_include preference"
    by (rule ext) (rule keeps_spec_include)
  have eq: "filter_stocks_by_preference stocks preference = filter (spec_include preference) stocks"
    by (simp add: filter_stocks_filter same)
  have "no_esg_keys s \<Longrightarrow> spec_include preference s"
    using no_esg_keys_keeps [of s preference] by (simp add: keeps_spec_include)
  with eq show ?thesis by auto
qed

theorem filter_includes_iff_predicate_witness:
  "stock_c \<in> set [stock_a, stock_c] \<and> no_esg_keys stock_c \<and>
   stock_c \<in> set (filter_stocks_by_preference [stock_a, stock_c] net_zero) \<and>
   stock_a \<notin> set (filter_stocks_by_preference [stock_a, stock_c] net_zero)"
proof -
  have c: "stock_c \<in> set [stock_a, stock_c] \<and> no_esg_keys stock_c"
    by (simp add: stock_c_def no_esg_keys_def esg_keys_def)
  have a: "\<not> spec_include net_zero stock_a"
    by (simp add: spec_include_def spec_sub_score_def stock_a_def spec_net_zero_def)
  from c a filter_includes_iff_predicate [of "[stock_a, stock_c]" net_zero stock_c]
    filter_includes_iff_predicate [of "[stock_a, stock_c]" net_zero stock_a]
  show ?thesis by blast
qed

text \<open>
  Claim C9. For every list of asset records and every strategy name, the output of the
  filter is a subsequence of its input: the surviving records are records of the input,
  unchanged and in their relative order. The filter is idempotent: applied to its own
  output under the same strategy, it returns that output.
\<close>

theorem filter_subseq_idempotent:
  "subseq (filter_stocks_by_preference stocks preference) stocks \<and>
   filter_stocks_by_preference (filter_stocks_by_preference stocks preference) preference
     = filter_stocks_by_preference stocks preference"
  by (simp add: filter_stocks_filter)

section \<open>Results on the aggregator and the series builder: degenerate inputs\<close>

lemma esg_step_volatility: "volatility (snd (esg_step tw d w m)) = volatility m"
  by (simp add: esg_step_def Let_def split: option.splits)

lemma esg_loop_volatility: "volatility (snd (esg_loop src tw ps m)) = volatility m"
proof (induction ps arbitrary: m)
  case Nil
  show ?case by simp
next
  case (Cons a ps)
  obtain t w where a: "a = (t, w)" by (cases a)
  show ?case
  proof (cases "get_stock_data src t")
    case None
    with a Cons show ?thesis by simp
  next
    case (Some d)
    obtain e m' where st: "esg_step tw d w m = (e, m')" by (cases "esg_step tw d w m")
    have v: "volatility m' = volatility m"
      using esg_step_volatility [of tw d w m] st by simp
    show ?thesis
      using a Some st v Cons [of m'] by (cases e) simp_all
  qed
qed

lemma metrics_body_volatility:
  "volatility (snd (metrics_body src h p b s)) = 0"
  by (simp add: metrics_body_def Let_def esg_loop_volatility initial_metrics_def
      split: sum.splits prod.splits)

lemma aggregator_volatility:
  "\<exists>m. calculate_portfolio_metrics src h p b s = Inr m \<and> volatility m = 0"
  by (simp add: calculate_portfolio_metrics_def metrics_body_volatility initial_metrics_def)

(* zero total weight *)

lemma esg_loop_zero: "snd (esg_loop src 0 ps m) = m"
  by (induction ps arbitrary: m) (auto simp: esg_step_def split: option.splits)

lemma fetch_loop_no_prices:
  "\<forall>t\<in>set (map fst items). no_prices h t \<Longrightarrow> fetch_loop h items st = Inr st' \<Longrightarrow> st' = st"
proof (induction items arbitrary: st)
  case Nil
  then show ?case by simp
next
  case (Cons a items)
  obtain t w where a: "a = (t, w)" by (cases a)
  from Cons.prems(1) a have np: "no_prices h t" by simp
  from Cons.prems(1) have rest: "\<forall>t\<in>set (map fst items). no_prices h t" by simp
  show ?case
    using Cons.prems(2) np a Cons.IH [OF rest]
    by (auto simp: no_prices_def split: sum.splits option.splits list.splits if_splits)
qed

lemma fetch_loop_weights:
  "fetch_loop h items st = Inr st' \<Longrightarrow>
   set (valid_weights st') \<subseteq> set (valid_weights st) \<union> set (map snd items)"
proof (induction items arbitrary: st)
  case Nil
  then show ?case by simp
next
  case (Cons a items)
  obtain t w where a: "a = (t, w)" by (cases a)
  show ?case
  proof (cases "h t")
    case (Inl e)
    with Cons.prems a show ?thesis by simp
  next
    case (Inr r)
    show ?thesis
    proof (cases r)
      case None
      with Inr a Cons.prems Cons.IH [of st] show ?thesis by auto
    next
      case (Some cs)
      show ?thesis
      proof (cases "cs = []")
        case True
        with Some Inr a Cons.prems Cons.IH [of st] show ?thesis by auto
      next
        case False
        show ?thesis
        proof (cases "set_column st t (pct_change cs)")
          case (Inl e)
          with False Some Inr a Cons.prems show ?thesis by simp
        next
          case (Inr st1)
          have vw: "valid_weights st1 = valid_weights st"
            using Inr by (auto simp: set_column_def split: option.splits sum.splits)
          have "fetch_loop h items (st1\<lparr>valid_tickers := valid_tickers st1 @ [t],
                           valid_weights := valid_weights st1 @ [w]\<rparr>) = Inr st'"
            using Cons.prems a \<open>h t = Inr r\<close> Some False Inr by simp
          from Cons.IH [OF this] vw a show ?thesis by auto
        qed
      qed
    qed
  qed
qed

lemma all_zero_sum: "\<forall>w\<in>set ws. w = 0 \<Longrightarrow> sum_list ws = (0::real)"
  by (induction ws) simp_all

lemma zip_snd_subset: "snd ` set (zip ts ws) \<subseteq> set ws"
  by (auto dest: set_zip_rightD)

lemma zip_fst_subset: "fst ` set (zip ts ws) \<subseteq> set ts"
  by (auto dest: set_zip_leftD)

lemma esg_step_performance:
  "performance_metrics (snd (esg_step tw d w m)) = performance_metrics m"
  by (simp add: esg_step_def Let_def split: option.splits)

lemma esg_loop_performance:
  "performance_metrics (snd (esg_loop src tw ps m)) = performance_metrics m"
proof (induction ps arbitrary: m)
  case Nil
  show ?case by simp
next
  case (Cons a ps)
  obtain t w where a: "a = (t, w)" by (cases a)
  show ?case
  proof (cases "get_stock_data src t")
    case None
    with a Cons show ?thesis by simp
  next
    case (Some d)
    obtain e m' where st: "esg_step tw d w m = (e, m')" by (cases "esg_step tw d w m")
    have v: "performance_metrics m' = performance_metrics m"
      using esg_step_performance [of tw d w m] st by simp
    show ?thesis
      using a Some st v Cons [of m'] by (cases e) simp_all
  qed
qed

lemma series_builder_returns:
  "\<exists>r. get_portfolio_historical_data h ts ws = Inr r"
  by (simp add: get_portfolio_historical_data_def split: sum.splits)

lemma builder_empty_no_prices:
  assumes "\<forall>t\<in>set ts. no_prices h t"
  shows "get_portfolio_historical_data h ts ws = Inr ([], [])"
proof -
  have np: "\<forall>t\<in>set (map fst (zip ts ws)). no_prices h t"
    using assms zip_fst_subset [of ts ws] by auto
  have "portfolio_body h ts ws = Inr r \<Longrightarrow> r = ([], [])" for r
    using fetch_loop_no_prices [OF np, of no_frames]
    by (auto simp: portfolio_body_def no_frames_def Let_def split: if_splits sum.splits)
  then show ?thesis
    by (auto simp: get_portfolio_historical_data_def split: sum.splits)
qed

lemma builder_empty_zero_weights:
  assumes "\<forall>w\<in>set ws. w = 0"
  shows "get_portfolio_historical_data h ts ws = Inr ([], [])"
proof -
  have z: "fetch_loop h (zip ts ws) no_frames = Inr st \<Longrightarrow> sum_list (valid_weights st) = 0" for st
  proof -
    assume "fetch_loop h (zip ts ws) no_frames = Inr st"
    from fetch_loop_weights [OF this] zip_snd_subset [of ts ws]
    have "set (valid_weights st) \<subseteq> set ws"
      by (auto simp: no_frames_def)
    with assms have "\<forall>w\<in>set (valid_weights st). w = 0" by blast
    then show ?thesis by (rule all_zero_sum)
  qed
  have "portfolio_body h ts ws = Inr r \<Longrightarrow> r = ([], [])" for r
    using z by (auto simp: portfolio_body_def Let_def split: if_splits sum.splits)
  then show ?thesis
    by (auto simp: get_portfolio_historical_data_def split: sum.splits)
qed

lemma builder_empty_inputs:
  "ts = [] \<or> ws = [] \<Longrightarrow> get_portfolio_historical_data h ts ws = Inr ([], [])"
  by (auto simp: get_portfolio_historical_data_def portfolio_body_def)

lemma get_stock_data_ticker: "get_stock_data src t = Some d \<Longrightarrow> ticker d = t"
  by (auto simp: get_stock_data_def Let_def split: option.splits prod.splits)

lemma resolve_tickers: "set (map ticker (resolve src ts)) \<subseteq> set ts"
  by (auto simp: resolve_def List.map_filter_def dest: get_stock_data_ticker)

lemma resolve_none: "\<forall>t\<in>set ts. src t = None \<Longrightarrow> resolve src ts = []"
  by (induction ts) (auto simp: resolve_def List.map_filter_def get_stock_data_def)

lemma filtered_portfolio_items:
  "filtered_portfolio p ss = Inr q \<Longrightarrow>
   map fst q = map ticker ss \<and> set q \<subseteq> set p"
proof (induction ss arbitrary: q)
  case Nil
  then show ?case by simp
next
  case (Cons s ss)
  then show ?case
    by (auto split: option.splits sum.splits dest: map_of_SomeD)
qed

lemma restrict_portfolio_items:
  assumes "restrict_portfolio src p s = Inr q"
  shows "set (map fst q) \<subseteq> set (map fst p) \<and> set (map snd q) \<subseteq> set (map snd p)"
proof (cases "\<exists>x. s = Some x \<and> x \<noteq> []")
  case False
  with assms have "q = p"
    by (auto simp: restrict_portfolio_def split: option.splits if_splits)
  then show ?thesis by simp
next
  case True
  then obtain x where x: "s = Some x" "x \<noteq> []" by blast
  let ?ss = "filter_stocks_by_preference (resolve src (map fst p)) x"
  from assms x have fp: "filtered_portfolio p ?ss = Inr q"
    by (simp add: restrict_portfolio_def)
  from filtered_portfolio_items [OF fp] have "set q \<subseteq> set p" by simp
  then show ?thesis by auto
qed

lemma metrics_body_no_records_no_prices:
  assumes "\<forall>t\<in>set (map fst p). src t = None \<and> no_prices h t"
  shows "snd (metrics_body src h p b s) = initial_metrics"
proof (cases "restrict_portfolio src p s")
  case (Inl e)
  then show ?thesis by (simp add: metrics_body_def)
next
  case (Inr q)
  from restrict_portfolio_items [OF Inr] assms
  have q: "\<forall>t\<in>set (map fst q). src t = None \<and> no_prices h t" by blast
  then have b: "get_portfolio_historical_data h (map fst q) (map snd q) = Inr ([], [])"
    by (intro builder_empty_no_prices) simp
  have v: "filter (\<lambda>(t, w). get_stock_data src t \<noteq> None) q = []"
    using q by (auto simp: filter_empty_conv get_stock_data_def)
  show ?thesis
    using Inr b v by (simp add: metrics_body_def Let_def split: sum.splits)
qed

lemma metrics_body_zero_weights:
  assumes "\<forall>w\<in>set (map snd p). w = 0"
  shows "snd (metrics_body src h p b s) = initial_metrics"
proof (cases "restrict_portfolio src p s")
  case (Inl e)
  then show ?thesis by (simp add: metrics_body_def)
next
  case (Inr q)
  from restrict_portfolio_items [OF Inr] assms
  have q: "\<forall>w\<in>set (map snd q). w = 0" by blast
  then have b: "get_portfolio_historical_data h (map fst q) (map snd q) = Inr ([], [])"
    by (intro builder_empty_zero_weights) simp
  have "\<forall>w\<in>set (map snd (filter (\<lambda>(t, w). get_stock_data src t \<noteq> None) q)). w = 0"
    using q by auto
  then have z: "sum_list (map snd (filter (\<lambda>(t, w). get_stock_data src t \<noteq> None) q)) = 0"
    by (rule all_zero_sum)
  show ?thesis
    using Inr b z by (simp add: metrics_body_def Let_def esg_loop_zero split: sum.splits)
qed

lemma metrics_body_no_prices:
  assumes "\<forall>t\<in>set (map fst p). no_prices h t"
  shows "performance_metrics (snd (metrics_body src h p b s)) = Map.empty"
proof (cases "restrict_portfolio src p s")
  case (Inl e)
  then show ?thesis by (simp add: metrics_body_def initial_metrics_def)
next
  case (Inr q)
  from restrict_portfolio_items [OF Inr] assms
  have q: "\<forall>t\<in>set (map fst q). no_prices h t" by blast
  then have b: "get_portfolio_historical_data h (map fst q) (map snd q) = Inr ([], [])"
    by (intro builder_empty_no_prices) simp
  show ?thesis
    using Inr b
    by (simp add: metrics_body_def Let_def esg_loop_performance initial_metrics_def
        split: sum.splits)
qed

lemma fetch_loop_raises:
  "\<exists>t\<in>set (map fst items). \<exists>e. h t = Inl e \<Longrightarrow> \<exists>e. fetch_loop h items st = Inl e"
proof (induction items arbitrary: st)
  case Nil
  then show ?case by simp
next
  case (Cons a items)
  obtain t w where a: "a = (t, w)" by (cases a)
  show ?case
  proof (cases "\<exists>e. h t = Inl e")
    case True
    with a show ?thesis by auto
  next
    case False
    with Cons.prems a have "\<exists>t\<in>set (map fst items). \<exists>e. h t = Inl e" by auto
    from Cons.IH [OF this] a show ?thesis
      by (auto split: sum.splits option.splits)
  qed
qed

lemma builder_empty_provider_raises:
  assumes "\<exists>t\<in>set (map fst (zip ts ws)). \<exists>e. h t = Inl e"
  shows "get_portfolio_historical_data h ts ws = Inr ([], [])"
proof -
  from fetch_loop_raises [OF assms, of no_frames]
  obtain e where "fetch_loop h (zip ts ws) no_frames = Inl e" by blast
  then show ?thesis
    by (auto simp: get_portfolio_historical_data_def portfolio_body_def split: sum.splits)
qed

text \<open>
  Claim C10. For every input (weights map, price histories, benchmark and strategy), the
  aggregator returns a record whose field \<open>volatility\<close> is 0: the field is set to zero at
  the start and no path of the function changes it, whatever the volatilities of the
  assets are.
\<close>

theorem volatility_field_always_zero:
  "\<exists>m. calculate_portfolio_metrics src h p b s = Inr m \<and> volatility m = 0"
  by (simp add: calculate_portfolio_metrics_def metrics_body_volatility initial_metrics_def)

text \<open>
  Claim C8, as stated, fails: for a portfolio whose ticker has a record but an empty
  price series, the aggregator returns the weighted scores and exposures of the record,
  not a record with all fields zero or empty.
\<close>

theorem aggregator_empty_prices_counterexample:
  "no_prices history_empty ''A'' \<and>
   calculate_portfolio_metrics provider_a history_empty [(''A'', 1)] None None =
     Inr \<lparr>volatility = 0, esg_score = 10, environmental_score = 2, social_score = 3,
          governance_score = 2, sector_exposure = [(''Technology'', 1)],
          country_exposure = [(''France'', 1)], performance_metrics = Map.empty\<rparr> \<and>
   calculate_portfolio_metrics provider_a history_empty [(''A'', 1)] None None
     \<noteq> Inr initial_metrics"
  by (simp add: no_prices_def history_empty_def calculate_portfolio_metrics_def
      metrics_body_def restrict_portfolio_def get_portfolio_historical_data_def
      portfolio_body_def no_frames_def fetch_benchmark_def provider_a_def get_stock_data_def
      esg_step_def initial_metrics_def Let_def)

text \<open>
  Claim C8, amended. For every input the aggregator and the series builder return without
  raising. The aggregator returns the record with all fields zero or empty when the
  weights map is empty, when no ticker has a record nor a usable price series, and when
  all weights are zero; when no ticker has a usable price series, its field
  \<open>performance_metrics\<close> is empty. The series builder returns an empty value series and an
  empty return series when the tickers or the weights are empty, when no ticker has a
  usable price series, when all weights are zero, and when the provider raises.
\<close>

theorem never_raises_and_empty_results:
  "(\<exists>m. calculate_portfolio_metrics src h p b s = Inr m) \<and>
   (\<exists>values returns. get_portfolio_historical_data h ts ws = Inr (values, returns)) \<and>
   calculate_portfolio_metrics src h [] b s = Inr initial_metrics \<and>
   ((\<forall>t\<in>set (map fst p). src t = None \<and> no_prices h t)
      \<longrightarrow> calculate_portfolio_metrics src h p b s = Inr initial_metrics) \<and>
   ((\<forall>w\<in>set (map snd p). w = 0)
      \<longrightarrow> calculate_portfolio_metrics src h p b s = Inr initial_metrics) \<and>
   ((\<forall>t\<in>set (map fst p). no_prices h t)
      \<longrightarrow> (\<exists>m. calculate_portfolio_metrics src h p b s = Inr m \<and>
               performance_metrics m = Map.empty)) \<and>
   (ts = [] \<or> ws = [] \<or> (\<forall>t\<in>set ts. no_prices h t) \<or> (\<forall>w\<in>set ws. w = 0) \<or>
    (\<exists>t\<in>set (map fst (zip ts ws)). \<exists>e. h t = Inl e)
      \<longrightarrow> get_portfolio_historical_data h ts ws = Inr ([], []))"
proof -
  have 1: "\<exists>m. calculate_portfolio_metrics src h p b s = Inr m"
    by (simp add: calculate_portfolio_metrics_def)
  have 2: "\<exists>values returns. get_portfolio_historical_data h ts ws = Inr (values, returns)"
    using series_builder_returns [of h ts ws] by auto
  have 3: "calculate_portfolio_metrics src h [] b s = Inr initial_metrics"
    by (simp add: calculate_portfolio_metrics_def)
  have 4: "calculate_portfolio_metrics src h p b s = Inr initial_metrics"
    if "\<forall>t\<in>set (map fst p). src t = None \<and> no_prices h t"
    using metrics_body_no_records_no_prices [OF that]
    by (simp add: calculate_portfolio_metrics_def)
  have 5: "calculate_portfolio_metrics src h p b s = Inr initial_metrics"
    if "\<forall>w\<in>set (map snd p). w = 0"
    using metrics_body_zero_weights [OF that]
    by (simp add: calculate_portfolio_metrics_def)
  have 6: "\<exists>m. calculate_portfolio_metrics src h p b s = Inr m \<and>
               performance_metrics m = Map.empty"
    if "\<forall>t\<in>set (map fst p). no_prices h t"
    using metrics_body_no_prices [OF that]
    by (simp add: calculate_portfolio_metrics_def initial_metrics_def)
  have 7: "get_portfolio_historical_data h ts ws = Inr ([], [])"
    if "ts = [] \<or> ws = [] \<or> (\<forall>t\<in>set ts. no_prices h t) \<or> (\<forall>w\<in>set ws. w = 0) \<or>
        (\<exists>t\<in>set (map fst (zip ts ws)). \<exists>e. h t = Inl e)"
    using that builder_empty_inputs [of ts ws h] builder_empty_no_prices [of ts h ws]
      builder_empty_zero_weights [of ws h ts] builder_empty_provider_raises [of ts ws h]
    by blast
  from 1 2 3 4 5 6 7 show ?thesis by blast
qed

theorem never_raises_and_empty_results_witness:
  "list_all (\<lambda>t. provider_a t = None \<and> no_prices history_empty t)
     (map fst [(''Z'', 0::real)]) \<and>
   list_all (\<lambda>w. w = 0) (map snd [(''Z'', 0::real)]) \<and>
   calculate_portfolio_metrics provider_a history_empty [(''Z'', 0)] None None
     = Inr initial_metrics \<and>
   get_portfolio_historical_data history_empty [''Z''] [0] = Inr ([], [])"
proof -
  have a: "\<forall>t\<in>set (map fst [(''Z'', 0::real)]). provider_a t = None \<and> no_prices history_empty t"
    by (simp add: provider_a_def no_prices_def history_empty_def)
  have b: "\<forall>w\<in>set (map snd [(''Z'', 0::real)]). w = 0" by simp
  have c: "\<forall>t\<in>set [''Z'']. no_prices history_empty t"
    by (simp add: no_prices_def history_empty_def)
  have d: "\<forall>w\<in>set [0::real]. w = 0" by simp
  have l: "list_all (\<lambda>t. provider_a t = None \<and> no_prices history_empty t)
             (map fst [(''Z'', 0::real)]) \<and>
           list_all (\<lambda>w. w = 0) (map snd [(''Z'', 0::real)])"
    using a b unfolding list_all_iff by blast
  from a b c d l
    never_raises_and_empty_results
      [of provider_a history_empty "[(''Z'', 0)]" None None "[''Z'']" "[0]"]
  show ?thesis by blast
qed

section \<open>Results on the weighted aggregates\<close>

lemma bump_sum: "sum_list (map snd (bump d k x)) = sum_list (map snd d) + x"
  by (induction d) auto

lemma get_stock_data_scores:
  assumes "get_stock_data src t = Some d"
  shows "\<exists>a b c e. nums d ''esg_score'' = Some a \<and> nums d ''environmental_score'' = Some b \<and>
           nums d ''social_score'' = Some c \<and> nums d ''governance_score'' = Some e"
  using assms
  by (auto simp: get_stock_data_def Let_def split: option.splits prod.splits)

lemma esg_step_ok:
  assumes "get_stock_data src t = Some d" and "tw \<noteq> 0"
  shows "\<exists>m'. esg_step tw d w m = (None, m') \<and>
     esg_score m' = esg_score m + record_score src ''esg_score'' t * (w / tw) \<and>
     environmental_score m' =
       environmental_score m + record_score src ''environmental_score'' t * (w / tw) \<and>
     social_score m' = social_score m + record_score src ''social_score'' t * (w / tw) \<and>
     governance_score m' =
       governance_score m + record_score src ''governance_score'' t * (w / tw) \<and>
     sum_list (map snd (sector_exposure m')) =
       sum_list (map snd (sector_exposure m)) + (if sector d \<noteq> ''N/A'' then w / tw else 0)"
proof -
  from get_stock_data_scores [OF assms(1)] obtain a b c e where
    k: "nums d ''esg_score'' = Some a" "nums d ''environmental_score'' = Some b"
       "nums d ''social_score'' = Some c" "nums d ''governance_score'' = Some e"
    by blast
  show ?thesis
    using assms k by (simp add: esg_step_def record_score_def Let_def bump_sum)
qed

text \<open>The state of the loop after the items \<open>q\<close>, in terms of the sums over \<open>q\<close>.\<close>

lemma esg_loop_sums:
  assumes "tw \<noteq> 0"
  shows "\<exists>m'. esg_loop src tw q m = (None, m') \<and>
     esg_score m' = esg_score m + (\<Sum>(t, w)\<leftarrow>q. record_score src ''esg_score'' t * (w / tw)) \<and>
     environmental_score m' = environmental_score m
        + (\<Sum>(t, w)\<leftarrow>q. record_score src ''environmental_score'' t * (w / tw)) \<and>
     social_score m' = social_score m
        + (\<Sum>(t, w)\<leftarrow>q. record_score src ''social_score'' t * (w / tw)) \<and>
     governance_score m' = governance_score m
        + (\<Sum>(t, w)\<leftarrow>q. record_score src ''governance_score'' t * (w / tw)) \<and>
     sum_list (map snd (sector_exposure m')) = sum_list (map snd (sector_exposure m))
        + (\<Sum>(t, w)\<leftarrow>q. if record_sector src t \<noteq> ''N/A'' then w / tw else 0)"
proof (induction q arbitrary: m)
  case Nil
  show ?case by simp
next
  case (Cons a q)
  obtain t w where a: "a = (t, w)" by (cases a)
  show ?case
  proof (cases "get_stock_data src t")
    case None
    from Cons [of m] obtain m' where
      "esg_loop src tw q m = (None, m')" and rest: "esg_score m' = esg_score m + (\<Sum>(t, w)\<leftarrow>q. record_score src ''esg_score'' t * (w / tw)) \<and>
     environmental_score m' = environmental_score m
        + (\<Sum>(t, w)\<leftarrow>q. record_score src ''environmental_score'' t * (w / tw)) \<and>
     social_score m' = social_score m
        + (\<Sum>(t, w)\<leftarrow>q. record_score src ''social_score'' t * (w / tw)) \<and>
     governance_score m' = governance_score m
        + (\<Sum>(t, w)\<leftarrow>q. record_score src ''governance_score'' t * (w / tw)) \<and>
     sum_list (map snd (sector_exposure m')) = sum_list (map snd (sector_exposure m))
        + (\<Sum>(t, w)\<leftarrow>q. if record_sector src t \<noteq> ''N/A'' then w / tw else 0)"
      by blast
    then show ?thesis
      using None a by (simp add: record_score_def record_sector_def)
  next
    case (Some d)
    from esg_step_ok [OF Some assms, of w m] obtain m1 where
      s1: "esg_step tw d w m = (None, m1)" and
      f1: "esg_score m1 = esg_score m + record_score src ''esg_score'' t * (w / tw)"
          "environmental_score m1 =
             environmental_score m + record_score src ''environmental_score'' t * (w / tw)"
          "social_score m1 = social_score m + record_score src ''social_score'' t * (w / tw)"
          "governance_score m1 =
             governance_score m + record_score src ''governance_score'' t * (w / tw)"
          "sum_list (map snd (sector_exposure m1)) =
             sum_list (map snd (sector_exposure m)) + (if sector d \<noteq> ''N/A'' then w / tw else 0)"
      by blast
    from Cons [of m1] obtain m' where
      l: "esg_loop src tw q m1 = (None, m')" and rest: "esg_score m' = esg_score m1 + (\<Sum>(t, w)\<leftarrow>q. record_score src ''esg_score'' t * (w / tw))"
     "environmental_score m' = environmental_score m1
        + (\<Sum>(t, w)\<leftarrow>q. record_score src ''environmental_score'' t * (w / tw))"
     "social_score m' = social_score m1
        + (\<Sum>(t, w)\<leftarrow>q. record_score src ''social_score'' t * (w / tw))"
     "governance_score m' = governance_score m1
        + (\<Sum>(t, w)\<leftarrow>q. record_score src ''governance_score'' t * (w / tw))"
     "sum_list (map snd (sector_exposure m')) = sum_list (map snd (sector_exposure m1))
        + (\<Sum>(t, w)\<leftarrow>q. if record_sector src t \<noteq> ''N/A'' then w / tw else 0)"
      by blast
    have sec: "record_sector src t = sector d" using Some by (simp add: record_sector_def)
    show ?thesis
      using a Some s1 l f1 rest sec by simp
  qed
qed

lemma weighted_sum_divide:
  "(\<Sum>(t, w)\<leftarrow>q. f t * (w / c)) = (\<Sum>(t, w)\<leftarrow>q. f t * w) / (c::real)"
  by (induction q) (auto simp: add_divide_distrib)

lemma known_sector_sum:
  assumes "\<forall>t\<in>set (map fst q). g t \<noteq> ''N/A''"
  shows "(\<Sum>(t, w)\<leftarrow>q. if g t \<noteq> ''N/A'' then w / c else 0) = sum_list (map snd q) / (c::real)"
  using assms by (induction q) (auto simp: add_divide_distrib)

lemma filtered_portfolio_filter:
  assumes "distinct (map fst p)" and "set q \<subseteq> set p"
  shows "filtered_portfolio p (filter K (List.map_filter (get_stock_data src) (map fst q)))
         = Inr (filter (\<lambda>(t, w). case get_stock_data src t of None \<Rightarrow> False | Some d \<Rightarrow> K d) q)"
  using assms(2)
proof (induction q)
  case Nil
  show ?case by (simp add: List.map_filter_simps)
next
  case (Cons a q)
  obtain t w where a: "a = (t, w)" by (cases a)
  from Cons.prems a have "(t, w) \<in> set p" by simp
  with assms(1) have look: "map_of p t = Some w" by simp
  from Cons have IH: "filtered_portfolio p (filter K (List.map_filter (get_stock_data src) (map fst q)))
         = Inr (filter (\<lambda>(t, w). case get_stock_data src t of None \<Rightarrow> False | Some d \<Rightarrow> K d) q)"
    by simp
  show ?case
  proof (cases "get_stock_data src t")
    case None
    with IH a show ?thesis by (simp add: List.map_filter_simps)
  next
    case (Some d)
    have "ticker d = t" using Some by (rule get_stock_data_ticker)
    with IH a Some look show ?thesis by (simp add: List.map_filter_simps)
  qed
qed

lemma restrict_portfolio_survivors:
  assumes "distinct (map fst p)"
  shows "restrict_portfolio src p s = Inr (survivors src p s)"
proof -
  have same: "keeps x = spec_include x" for x
    by (rule ext) (rule keeps_spec_include)
  show ?thesis
    using filtered_portfolio_filter [OF assms subset_refl, of _ src]
    by (simp add: restrict_portfolio_def survivors_def resolve_def filter_stocks_filter same
        split: option.splits)
qed

lemma fetch_benchmark_returns: "\<exists>r. fetch_benchmark h b = Inr r"
  by (auto simp: fetch_benchmark_def get_benchmark_data_def split: option.splits sum.splits)

lemma survivors_subset: "set (survivors src p s) \<subseteq> set p"
  by (auto simp: survivors_def split: option.splits)

text \<open>
  Claim C7, as stated, fails: under the strategy Solidaire the asset B, whose total score
  is 30, is removed from the weights map before the aggregation, so that the aggregated
  score is that of A alone, 10, and not the weighted sum over both resolvable tickers, 20.
\<close>

theorem weighted_esg_counterexample:
  "provider_ab_high ''A'' \<noteq> None \<and> provider_ab_high ''B'' \<noteq> None \<and>
   map_sum id esg_score
     (calculate_portfolio_metrics provider_ab_high history_empty [(''A'', 50), (''B'', 50)]
        None (Some solidarity)) = Inr 10 \<and>
   spec_weighted_score provider_ab_high ''esg_score'' [(''A'', 50), (''B'', 50)] = 20"
  by (simp add: calculate_portfolio_metrics_def metrics_body_def restrict_portfolio_def
      resolve_def List.map_filter_simps filter_stocks_by_preference_def keeps_def
      solidarity_def net_zero_def multi_thematic_def soc_score_def gov_score_def
      total_score_def get2_def get_portfolio_historical_data_def portfolio_body_def
      no_frames_def history_empty_def fetch_benchmark_def provider_ab_high_def
      get_stock_data_def esg_step_def initial_metrics_def Let_def spec_weighted_score_def
      record_score_def)

text \<open>
  Claim C7, amended. For every weights map (each ticker once) whose tickers all resolve to
  an asset record, let the working items be the items whose record passes the eligibility
  filter under the given strategy, and all items when no strategy is given. When the
  weights of the working items do not sum to zero, each of the four aggregated scores is
  the sum over the working items of score times weight, divided by the sum of the weights
  of the working items, and the values of \<open>sector_exposure\<close> sum to 1 when every working
  item has a known sector. For the weights A: 50, B: 50 of the scenario and no strategy,
  the aggregated total score is 12.5 and the environmental score 2.5.
\<close>

theorem weighted_esg_aggregates:
  assumes "distinct (map fst p)"
    and "\<forall>t\<in>set (map fst p). src t \<noteq> None"
    and "sum_list (map snd (survivors src p s)) \<noteq> 0"
  shows "\<exists>m. calculate_portfolio_metrics src h p b s = Inr m \<and>
     esg_score m = spec_weighted_score src ''esg_score'' (survivors src p s) \<and>
     environmental_score m
       = spec_weighted_score src ''environmental_score'' (survivors src p s) \<and>
     social_score m = spec_weighted_score src ''social_score'' (survivors src p s) \<and>
     governance_score m = spec_weighted_score src ''governance_score'' (survivors src p s) \<and>
     ((\<forall>t\<in>set (map fst (survivors src p s)). record_sector src t \<noteq> ''N/A'')
        \<longrightarrow> sum_list (map snd (sector_exposure m)) = 1)"
proof -
  let ?q = "survivors src p s"
  let ?W = "sum_list (map snd ?q)"
  have q_ne: "?q \<noteq> []" using assms(3) by auto
  then have p_ne: "p \<noteq> []" using survivors_subset [of src p s] by auto
  have resolves: "\<forall>(t, w)\<in>set ?q. get_stock_data src t \<noteq> None"
    using assms(2) survivors_subset [of src p s]
    by (fastforce simp: get_stock_data_def Let_def split: option.splits prod.splits)
  then have valid: "filter (\<lambda>(t, w). get_stock_data src t \<noteq> None) ?q = ?q"
    by (simp add: filter_id_conv case_prod_beta)
  obtain pv returns where
    hist: "get_portfolio_historical_data h (map fst ?q) (map snd ?q) = Inr (pv, returns)"
    using series_builder_returns [of h "map fst ?q" "map snd ?q"] by auto
  obtain br where bench: "fetch_benchmark h b = Inr br"
    using fetch_benchmark_returns [of h b] by blast
  define m0 where "m0 = (if returns \<noteq> []
                 then initial_metrics\<lparr>performance_metrics := calculate_metrics returns br\<rparr>
                 else initial_metrics)"
  have zero: "esg_score m0 = 0" "environmental_score m0 = 0" "social_score m0 = 0"
    "governance_score m0 = 0" "sector_exposure m0 = []"
    by (simp_all add: m0_def initial_metrics_def)
  have body: "metrics_body src h p b s = esg_loop src ?W ?q m0"
    using restrict_portfolio_survivors [OF assms(1), of src s] hist bench valid q_ne
    by (simp add: metrics_body_def Let_def m0_def)
  from esg_loop_sums [OF assms(3), of src ?q m0] obtain m where
    loop: "esg_loop src ?W ?q m0 = (None, m)" and
    sums: "esg_score m = esg_score m0 + (\<Sum>(t, w)\<leftarrow>?q. record_score src ''esg_score'' t * (w / ?W))"
      "environmental_score m = environmental_score m0
        + (\<Sum>(t, w)\<leftarrow>?q. record_score src ''environmental_score'' t * (w / ?W))"
      "social_score m = social_score m0
        + (\<Sum>(t, w)\<leftarrow>?q. record_score src ''social_score'' t * (w / ?W))"
      "governance_score m = governance_score m0
        + (\<Sum>(t, w)\<leftarrow>?q. record_score src ''governance_score'' t * (w / ?W))"
      "sum_list (map snd (sector_exposure m)) = sum_list (map snd (sector_exposure m0))
        + (\<Sum>(t, w)\<leftarrow>?q. if record_sector src t \<noteq> ''N/A'' then w / ?W else 0)"
    by blast
  have res: "calculate_portfolio_metrics src h p b s = Inr m"
    using p_ne body loop by (simp add: calculate_portfolio_metrics_def)
  have sec: "sum_list (map snd (sector_exposure m)) = 1"
    if "\<forall>t\<in>set (map fst ?q). record_sector src t \<noteq> ''N/A''"
    using sums(5) zero known_sector_sum [OF that, of ?W] assms(3) by simp
  have e1: "esg_score m = spec_weighted_score src ''esg_score'' ?q"
    by (simp only: sums(1) zero(1) weighted_sum_divide spec_weighted_score_def add_0_left)
  have e2: "environmental_score m = spec_weighted_score src ''environmental_score'' ?q"
    by (simp only: sums(2) zero(2) weighted_sum_divide spec_weighted_score_def add_0_left)
  have e3: "social_score m = spec_weighted_score src ''social_score'' ?q"
    by (simp only: sums(3) zero(3) weighted_sum_divide spec_weighted_score_def add_0_left)
  have e4: "governance_score m = spec_weighted_score src ''governance_score'' ?q"
    by (simp only: sums(4) zero(4) weighted_sum_divide spec_weighted_score_def add_0_left)
  from res e1 e2 e3 e4 sec show ?thesis by blast
qed

theorem weighted_esg_aggregates_witness:
  "distinct (map fst [(''A'', 50::real), (''B'', 50)]) \<and>
   list_all (\<lambda>t. provider_ab t \<noteq> None) (map fst [(''A'', 50::real), (''B'', 50)]) \<and>
   sum_list (map snd (survivors provider_ab [(''A'', 50), (''B'', 50)] None)) \<noteq> 0 \<and>
   list_all (\<lambda>t. record_sector provider_ab t \<noteq> ''N/A'')
     (map fst (survivors provider_ab [(''A'', 50), (''B'', 50)] None)) \<and>
   (\<exists>m. calculate_portfolio_metrics provider_ab history_empty [(''A'', 50), (''B'', 50)]
           None None = Inr m \<and>
        esg_score m = 25 / 2 \<and> environmental_score m = 5 / 2 \<and>
        sum_list (map snd (sector_exposure m)) = 1)"
proof -
  have a: "distinct (map fst [(''A'', 50::real), (''B'', 50)])" by simp
  have b: "\<forall>t\<in>set (map fst [(''A'', 50::real), (''B'', 50)]). provider_ab t \<noteq> None"
    by (simp add: provider_ab_def)
  have s: "survivors provider_ab [(''A'', 50), (''B'', 50)] None = [(''A'', 50), (''B'', 50)]"
    by (simp add: survivors_def)
  have c: "sum_list (map snd (survivors provider_ab [(''A'', 50), (''B'', 50)] None)) \<noteq> 0"
    by (simp add: s)
  have d: "\<forall>t\<in>set (map fst (survivors provider_ab [(''A'', 50), (''B'', 50)] None)).
      record_sector provider_ab t \<noteq> ''N/A''"
    by (simp add: s record_sector_def get_stock_data_def provider_ab_def)
  have e: "spec_weighted_score provider_ab ''esg_score'' [(''A'', 50), (''B'', 50)] = 25 / 2"
    by (simp add: spec_weighted_score_def record_score_def get_stock_data_def provider_ab_def)
  have f: "spec_weighted_score provider_ab ''environmental_score'' [(''A'', 50), (''B'', 50)]
             = 5 / 2"
    by (simp add: spec_weighted_score_def record_score_def get_stock_data_def provider_ab_def)
  have l: "list_all (\<lambda>t. provider_ab t \<noteq> None) (map fst [(''A'', 50::real), (''B'', 50)]) \<and>
           list_all (\<lambda>t. record_sector provider_ab t \<noteq> ''N/A'')
             (map fst (survivors provider_ab [(''A'', 50), (''B'', 50)] None))"
    using b d unfolding list_all_iff by blast
  from weighted_esg_aggregates [OF a b c, of history_empty None] d
  have "\<exists>m. calculate_portfolio_metrics provider_ab history_empty [(''A'', 50), (''B'', 50)]
           None None = Inr m \<and>
        esg_score m = 25 / 2 \<and> environmental_score m = 5 / 2 \<and>
        sum_list (map snd (sector_exposure m)) = 1"
    unfolding s e f by blast
  with a c l show ?thesis by blast
qed

section \<open>Results on the return series\<close>

lemma pct_rest_dates: "dates (pct_rest prev ps) = dates ps"
  by (induction ps arbitrary: prev) (auto simp: dates_def)

lemma pct_change_dates: "dates (pct_change cs) = dates cs"
  using pct_rest_dates by (cases cs) (auto simp: dates_def)

lemma pct_change_length: "length (pct_change cs) = length cs"
  using pct_change_dates [of cs] by (auto simp: dates_def dest: map_eq_imp_length_eq)

lemma pct_rest_nth:
  "i < length ps \<Longrightarrow>
   snd (pct_rest prev ps ! i) =
     fsub (fdiv (Fin (snd (ps ! i))) (Fin (if i = 0 then prev else snd (ps ! (i - 1))))) (Fin 1)"
proof (induction ps arbitrary: prev i)
  case Nil
  then show ?case by simp
next
  case (Cons a ps)
  obtain d p where a: "a = (d, p)" by (cases a)
  show ?case
  proof (cases i)
    case 0
    with a show ?thesis by simp
  next
    case (Suc j)
    with Cons.prems have "j < length ps" by simp
    from Cons.IH [OF this, of p] a Suc show ?thesis
      by (cases j) simp_all
  qed
qed

lemma pct_change_nth:
  assumes "1 \<le> i" and "i < length cs"
  shows "snd (pct_change cs ! i) =
     fsub (fdiv (Fin (snd (cs ! i))) (Fin (snd (cs ! (i - 1))))) (Fin 1)"
proof -
  obtain d p ps where cs: "cs = (d, p) # ps" using assms by (cases cs) auto
  obtain j where j: "i = Suc j" using assms(1) by (cases i) auto
  with assms cs have "j < length ps" by simp
  from pct_rest_nth [OF this, of p] cs j show ?thesis by (cases j) simp_all
qed

lemma freturn_finite:
  "q \<noteq> 0 \<Longrightarrow> fsub (fdiv (Fin p) (Fin q)) (Fin 1) = Fin (p / q - 1)"
  by (simp add: fsub_def)

lemma pct_rest_spec:
  "prev \<noteq> 0 \<Longrightarrow> \<forall>p\<in>set (vals ps). p \<noteq> 0 \<Longrightarrow>
   pct_rest prev ps =
     map (\<lambda>i. (fst (ps ! i),
                Fin (snd (ps ! i) / (if i = 0 then prev else snd (ps ! (i - 1))) - 1)))
       [0..<length ps]"
proof (induction ps arbitrary: prev)
  case Nil
  show ?case by simp
next
  case (Cons a ps)
  obtain d p where a: "a = (d, p)" by (cases a)
  from Cons.prems a have p: "p \<noteq> 0" and rest: "\<forall>p\<in>set (vals ps). p \<noteq> 0"
    by (simp_all add: vals_def)
  have shift: "[0..<length (a # ps)] = 0 # map Suc [0..<length ps]"
    by (simp add: upt_conv_Cons map_Suc_upt del: upt_Suc)
  show ?case
    unfolding shift using Cons.IH [OF p rest] Cons.prems(1) a
    by (simp add: fsub_def comp_def)
qed

lemma pct_change_spec:
  assumes "cs \<noteq> []" and "\<forall>p\<in>set (vals cs). p \<noteq> 0"
  shows "pct_change cs = (fst (hd cs), NaN) # spec_return_series cs"
proof -
  obtain d p ps where cs: "cs = (d, p) # ps" using assms(1) by (cases cs) auto
  with assms(2) have p: "p \<noteq> 0" and rest: "\<forall>p\<in>set (vals ps). p \<noteq> 0"
    by (simp_all add: vals_def)
  have shift: "[1..<length cs] = map Suc [0..<length ps]"
    using cs by (simp add: map_Suc_upt)
  show ?thesis
    unfolding spec_return_series_def shift using pct_rest_spec [OF p rest] cs
    by (auto simp: comp_def)
qed

lemma zip_replicate_map:
  "map f (zip (replicate (length xs) c) xs) = map (\<lambda>x. f (c, x)) xs"
  by (induction xs) simp_all

lemma fadd_zero_fmul_one: "fadd (Fin 0) (fmul v (Fin 1)) = v"
  by (cases v) (simp_all add: inf_of_sign_def)

lemma benchmark_returns_pct_change:
  assumes "b \<noteq> []" and "h b = Inr (Some cs)"
  shows "map_sum id snd (get_benchmark_data h b) = Inr (pct_change cs)"
  using assms
  by (cases cs) (auto simp: get_benchmark_data_def benchmark_body_def)

lemma single_asset_returns_pct_change:
  assumes "w \<noteq> 0" and "h t = Inr (Some cs)"
  shows "map_sum id snd (get_portfolio_historical_data h [t] [w]) = Inr (pct_change cs)"
proof (cases "cs = []")
  case True
  with assms show ?thesis
    by (simp add: get_portfolio_historical_data_def portfolio_body_def no_frames_def)
next
  case False
  have len: "length (dates (pct_change cs)) = length (vals (pct_change cs))"
    by (simp add: dates_def vals_def)
  have z: "zip (dates (pct_change cs)) (vals (pct_change cs)) = pct_change cs"
    by (simp add: dates_def vals_def zip_map_fst_snd)
  have acc: "map (\<lambda>(a, v). fadd a (fmul v (Fin 1)))
               (zip (replicate (length (dates (pct_change cs))) (Fin 0)) (vals (pct_change cs)))
             = vals (pct_change cs)"
    unfolding len zip_replicate_map by (simp add: fadd_zero_fmul_one)
  show ?thesis
    using assms False acc z
    by (simp add: get_portfolio_historical_data_def portfolio_body_def no_frames_def
        set_column_def Let_def)
qed

lemma priced: "h t = Inr (Some cs) \<Longrightarrow> cs \<noteq> [] \<Longrightarrow> \<not> no_prices h t"
  by (cases cs) (simp_all add: no_prices_def)

lemma fetch_loop_valid_tickers:
  "fetch_loop h items st = Inr st' \<Longrightarrow>
   valid_tickers st' = valid_tickers st @ map fst (filter (\<lambda>(t, w). \<not> no_prices h t) items)"
proof (induction items arbitrary: st)
  case Nil
  then show ?case by simp
next
  case (Cons a items)
  obtain t w where a: "a = (t, w)" by (cases a)
  show ?case
  proof (cases "h t")
    case (Inl e)
    with Cons.prems a show ?thesis by simp
  next
    case (Inr r)
    show ?thesis
    proof (cases r)
      case None
      with Inr a Cons.prems Cons.IH [of st] show ?thesis by (auto simp: no_prices_def)
    next
      case (Some cs)
      show ?thesis
      proof (cases "cs = []")
        case True
        with Some Inr a Cons.prems Cons.IH [of st] show ?thesis by (auto simp: no_prices_def)
      next
        case False
        show ?thesis
        proof (cases "set_column st t (pct_change cs)")
          case (Inl e)
          with False Some Inr a Cons.prems show ?thesis by simp
        next
          case st1: (Inr st1)
          have vt: "valid_tickers st1 = valid_tickers st"
            using st1 by (auto simp: set_column_def split: option.splits sum.splits)
          have np: "\<not> no_prices h t" using Inr Some False by (intro priced [of h t cs]) auto
          have "fetch_loop h items (st1\<lparr>valid_tickers := valid_tickers st1 @ [t],
                           valid_weights := valid_weights st1 @ [w]\<rparr>) = Inr st'"
            using Cons.prems a Inr Some False st1 by simp
          from Cons.IH [OF this] vt a np show ?thesis by simp
        qed
      qed
    qed
  qed
qed

lemma frames_reindexed_start: "frames_reindexed h no_frames"
  by (simp add: frames_reindexed_def no_frames_def)

lemma frames_reindexed_step:
  assumes "frames_reindexed h st" and "h t = Inr (Some cs)"
    and "set_column st t (pct_change cs) = Inr st1"
  shows "frames_reindexed h (st1\<lparr>valid_tickers := valid_tickers st1 @ [t],
                                  valid_weights := valid_weights st1 @ [w]\<rparr>)"
proof (cases "index st")
  case None
  with assms(1) have "valid_tickers st = []" by (simp add: frames_reindexed_def)
  with None assms(2,3) show ?thesis
    by (auto simp: set_column_def frames_reindexed_def reindex_def pct_change_dates)
next
  case (Some idx)
  with assms(1) obtain cs0 where
    v: "valid_tickers st \<noteq> []" and
    c0: "h (hd (valid_tickers st)) = Inr (Some cs0)" "idx = dates cs0" and
    cols: "\<forall>t\<in>set (valid_tickers st). \<exists>cs col.
              h t = Inr (Some cs) \<and> map_of (columns st) t = Some col \<and>
              reindex idx (pct_change cs) = Inr col"
    by (auto simp: frames_reindexed_def)
  from assms(3) Some obtain vs where
    r: "reindex idx (pct_change cs) = Inr vs" and
    st1: "st1 = st\<lparr>columns := (t, vs) # columns st\<rparr>"
    by (auto simp: set_column_def split: sum.splits)
  have new: "\<forall>t'\<in>set (valid_tickers st @ [t]). \<exists>cs' col.
              h t' = Inr (Some cs') \<and> map_of ((t, vs) # columns st) t' = Some col \<and>
              reindex idx (pct_change cs') = Inr col"
  proof
    fix t'
    assume mem: "t' \<in> set (valid_tickers st @ [t])"
    show "\<exists>cs' col. h t' = Inr (Some cs') \<and> map_of ((t, vs) # columns st) t' = Some col \<and>
              reindex idx (pct_change cs') = Inr col"
    proof (cases "t' = t")
      case True
      with assms(2) r show ?thesis by simp
    next
      case False
      with mem cols show ?thesis by auto
    qed
  qed
  have first: "hd (valid_tickers st @ [t]) = hd (valid_tickers st)" using v by simp
  have "\<exists>cs0. h (hd (valid_tickers st @ [t])) = Inr (Some cs0) \<and> idx = dates cs0"
    unfolding first using c0 by blast
  with new show ?thesis
    unfolding frames_reindexed_def st1 using Some by simp
qed

lemma fetch_loop_frames_reindexed:
  "frames_reindexed h st \<Longrightarrow> fetch_loop h items st = Inr st' \<Longrightarrow> frames_reindexed h st'"
proof (induction items arbitrary: st)
  case Nil
  then show ?case by simp
next
  case (Cons a items)
  obtain t w where a: "a = (t, w)" by (cases a)
  show ?case
  proof (cases "h t")
    case (Inl e)
    with Cons.prems a show ?thesis by simp
  next
    case (Inr r)
    show ?thesis
    proof (cases r)
      case None
      with Inr a Cons.prems Cons.IH [of st] show ?thesis by auto
    next
      case (Some cs)
      show ?thesis
      proof (cases "cs = []")
        case True
        with Some Inr a Cons.prems Cons.IH [of st] show ?thesis by auto
      next
        case False
        show ?thesis
        proof (cases "set_column st t (pct_change cs)")
          case (Inl e)
          with False Some \<open>h t = Inr r\<close> a Cons.prems show ?thesis by simp
        next
          case st1: (Inr st1)
          have inv: "frames_reindexed h (st1\<lparr>valid_tickers := valid_tickers st1 @ [t],
                           valid_weights := valid_weights st1 @ [w]\<rparr>)"
            using frames_reindexed_step [OF Cons.prems(1) _ st1] Inr Some by simp
          have "fetch_loop h items (st1\<lparr>valid_tickers := valid_tickers st1 @ [t],
                           valid_weights := valid_weights st1 @ [w]\<rparr>) = Inr st'"
            using Cons.prems(2) a Inr Some False st1 by simp
          from Cons.IH [OF inv this] show ?thesis .
        qed
      qed
    qed
  qed
qed

lemma constituent_column_reindexed:
  assumes "fetch_loop h items no_frames = Inr st" and "t \<in> set (map fst items)"
    and "h t = Inr (Some cs)" and "cs \<noteq> []"
  shows "valid_tickers st = map fst (filter (\<lambda>(t, w). \<not> no_prices h t) items) \<and>
     t \<in> set (valid_tickers st) \<and>
     (\<exists>cs0 col. h (hd (valid_tickers st)) = Inr (Some cs0) \<and> index st = Some (dates cs0) \<and>
        map_of (columns st) t = Some col \<and>
        reindex (dates cs0) (pct_change cs) = Inr col \<and>
        (dates cs = dates cs0 \<longrightarrow> col = vals (pct_change cs)))"
proof -
  have vt: "valid_tickers st = map fst (filter (\<lambda>(t, w). \<not> no_prices h t) items)"
    using fetch_loop_valid_tickers [OF assms(1)] by (simp add: no_frames_def)
  from assms(2) obtain w where "(t, w) \<in> set items" by auto
  moreover have "\<not> no_prices h t" using assms(3,4) by (rule priced [of h t cs])
  ultimately have mem: "t \<in> set (valid_tickers st)"
    unfolding vt by force
  have inv: "frames_reindexed h st"
    using frames_reindexed_start assms(1) by (rule fetch_loop_frames_reindexed)
  from mem have ne: "valid_tickers st \<noteq> []" by auto
  with inv obtain idx where idx: "index st = Some idx"
    by (cases "index st") (auto simp: frames_reindexed_def)
  with inv mem obtain cs0 cs' col where
    c0: "h (hd (valid_tickers st)) = Inr (Some cs0)" "idx = dates cs0" and
    c: "h t = Inr (Some cs')" "map_of (columns st) t = Some col"
       "reindex idx (pct_change cs') = Inr col"
    by (auto simp: frames_reindexed_def)
  from c(1) assms(3) have "cs' = cs" by simp
  with c have r: "reindex (dates cs0) (pct_change cs) = Inr col" using c0(2) by simp
  then have "col = vals (pct_change cs)" if "dates cs = dates cs0"
    using that by (simp add: reindex_def pct_change_dates)
  with vt mem c0 idx c(2) r show ?thesis by auto
qed


text \<open>
  Claim C6, as stated, fails: the return series of the benchmark and of the portfolio keep
  the first date of the price series, with the value \<open>NaN\<close>; the series the claim
  describes starts at the second date.
\<close>

theorem first_date_kept_counterexample:
  "map_sum id snd (get_benchmark_data history_a ''A'') = Inr [(0, NaN), (1, Fin (1 / 10))] \<and>
   map_sum id snd (get_portfolio_historical_data history_a [''A''] [1])
     = Inr [(0, NaN), (1, Fin (1 / 10))] \<and>
   spec_return_series [(0, 100), (1, 110)] = [(1, Fin (1 / 10))]"
  by (simp add: get_benchmark_data_def benchmark_body_def history_a_def
      get_portfolio_historical_data_def portfolio_body_def no_frames_def set_column_def
      dates_def vals_def fsub_def spec_return_series_def Let_def)

text \<open>
  Claim C6, amended. For every non-empty close-price series, the return series derived
  from it has the dates of the price series: the first date is kept, with the value
  \<open>NaN\<close>, and at every later date the return is the price over the previous price, less
  one, so that for prices different from zero the series is the one of the specification
  with the first date put in front. This series is the return series of the benchmark, and
  the return series of a portfolio made of the single constituent. In the frames that the
  loop of lines 153-161 builds for a portfolio, the valid tickers are the tickers with
  prices, the index is the list of the dates of the first of them, and the column of every
  constituent is this series reindexed on that index: the series itself when the
  constituent has the dates of the first valid one; else, at each date of the index, the
  return of the constituent at that date, or \<open>NaN\<close> when it has none, the returns at other
  dates being lost.
\<close>

theorem return_series_keeps_first_date:
  assumes "cs \<noteq> []"
  shows "dates (pct_change cs) = dates cs \<and>
     pct_change cs ! 0 = (fst (cs ! 0), NaN) \<and>
     (\<forall>i. 1 \<le> i \<and> i < length cs \<longrightarrow>
        snd (pct_change cs ! i)
          = fsub (fdiv (Fin (snd (cs ! i))) (Fin (snd (cs ! (i - 1))))) (Fin 1)) \<and>
     ((\<forall>p\<in>set (vals cs). p \<noteq> 0) \<longrightarrow>
        pct_change cs = (fst (hd cs), NaN) # spec_return_series cs) \<and>
     (b \<noteq> [] \<and> h b = Inr (Some cs) \<longrightarrow>
        map_sum id snd (get_benchmark_data h b) = Inr (pct_change cs)) \<and>
     (w \<noteq> 0 \<and> h t = Inr (Some cs) \<longrightarrow>
        map_sum id snd (get_portfolio_historical_data h [t] [w]) = Inr (pct_change cs)) \<and>
     (fetch_loop h items no_frames = Inr st \<and> t \<in> set (map fst items) \<and>
      h t = Inr (Some cs) \<longrightarrow>
        valid_tickers st = map fst (filter (\<lambda>(t, w). \<not> no_prices h t) items) \<and>
        t \<in> set (valid_tickers st) \<and>
        (\<exists>cs0 col. h (hd (valid_tickers st)) = Inr (Some cs0) \<and>
           index st = Some (dates cs0) \<and>
           map_of (columns st) t = Some col \<and>
           reindex (dates cs0) (pct_change cs) = Inr col \<and>
           (dates cs = dates cs0 \<longrightarrow> col = vals (pct_change cs))))"
proof -
  have first: "pct_change cs ! 0 = (fst (cs ! 0), NaN)"
    using assms by (cases cs) auto
  have frames: "valid_tickers st = map fst (filter (\<lambda>(t, w). \<not> no_prices h t) items) \<and>
        t \<in> set (valid_tickers st) \<and>
        (\<exists>cs0 col. h (hd (valid_tickers st)) = Inr (Some cs0) \<and>
           index st = Some (dates cs0) \<and>
           map_of (columns st) t = Some col \<and>
           reindex (dates cs0) (pct_change cs) = Inr col \<and>
           (dates cs = dates cs0 \<longrightarrow> col = vals (pct_change cs)))"
    if "fetch_loop h items no_frames = Inr st" "t \<in> set (map fst items)"
       "h t = Inr (Some cs)"
    using constituent_column_reindexed [OF that assms] .
  from first pct_change_dates [of cs] pct_change_nth [of _ cs] pct_change_spec [OF assms]
    benchmark_returns_pct_change [of b h cs] single_asset_returns_pct_change [of w h t cs]
    frames
  show ?thesis by blast
qed

theorem return_series_keeps_first_date_witness:
  "[(1, 100), (2, 150), (3, 300)] \<noteq> ([] :: close_series) \<and>
   list_all (\<lambda>p. p \<noteq> 0) (vals [(1::nat, 100::real), (2, 150), (3, 300)]) \<and>
   ''B'' \<noteq> [] \<and> history_ab ''B'' = Inr (Some [(1, 100), (2, 150), (3, 300)]) \<and>
   (1::real) \<noteq> 0 \<and> (1::nat) \<le> 1 \<and> 1 < length [(1::nat, 100::real), (2, 150), (3, 300)] \<and>
   pct_change [(1, 100), (2, 150), (3, 300)] = [(1, NaN), (2, Fin (1 / 2)), (3, Fin 1)] \<and>
   map_sum id snd (get_benchmark_data history_ab ''B'')
     = Inr [(1, NaN), (2, Fin (1 / 2)), (3, Fin 1)] \<and>
   map_sum id snd (get_portfolio_historical_data history_ab [''B''] [1])
     = Inr [(1, NaN), (2, Fin (1 / 2)), (3, Fin 1)] \<and>
   fetch_loop history_ab [(''A'', 1), (''B'', 1)] no_frames = Inr frames_ab \<and>
   ''B'' \<in> set (map fst [(''A'', 1::real), (''B'', 1)]) \<and>
   valid_tickers frames_ab = [''A'', ''B''] \<and>
   history_ab (hd (valid_tickers frames_ab)) = Inr (Some [(0, 100), (1, 110), (2, 121)]) \<and>
   index frames_ab = Some [0, 1, 2] \<and>
   reindex [0, 1, 2] (pct_change [(1, 100), (2, 150), (3, 300)]) = Inr [NaN, NaN, Fin (1 / 2)] \<and>
   map_of (columns frames_ab) ''B'' = Some [NaN, NaN, Fin (1 / 2)]"
proof -
  let ?cs = "[(1, 100), (2, 150), (3, 300)] :: close_series"
  let ?items = "[(''A'', 1), (''B'', 1)] :: (string \<times> real) list"
  have ne: "?cs \<noteq> []" by simp
  have nz: "\<forall>p\<in>set (vals ?cs). p \<noteq> 0" by (simp add: vals_def)
  have hb: "''B'' \<noteq> [] \<and> history_ab ''B'' = Inr (Some ?cs)"
    by (simp add: history_ab_def)
  have ix: "(1::real) \<noteq> 0 \<and> (1::nat) \<le> 1 \<and> 1 < length ?cs" by simp
  have pc: "pct_change ?cs = [(1, NaN), (2, Fin (1 / 2)), (3, Fin 1)]"
    by (simp add: fsub_def)
  have fl: "fetch_loop history_ab ?items no_frames = Inr frames_ab"
    by (simp add: history_ab_def no_frames_def frames_ab_def set_column_def reindex_def
        dates_def vals_def fsub_def)
  have mem: "''B'' \<in> set (map fst ?items)" by simp
  have vt: "valid_tickers frames_ab = [''A'', ''B'']" by (simp add: frames_ab_def)
  have ha: "history_ab (hd (valid_tickers frames_ab)) = Inr (Some [(0, 100), (1, 110), (2, 121)])"
    by (simp add: vt history_ab_def)
  have ri: "reindex [0, 1, 2] (pct_change ?cs) = Inr [NaN, NaN, Fin (1 / 2)]"
    unfolding pc by (simp add: reindex_def dates_def)
  note inst = return_series_keeps_first_date [OF ne, where b = "''B''" and h = history_ab
      and w = 1 and t = "''B''" and items = ?items and st = frames_ab]
  from inst hb ix have series:
       "map_sum id snd (get_benchmark_data history_ab ''B'') = Inr (pct_change ?cs) \<and>
        map_sum id snd (get_portfolio_historical_data history_ab [''B''] [1])
          = Inr (pct_change ?cs)"
    by blast
  from inst fl mem hb obtain cs0 col where
    c: "history_ab (hd (valid_tickers frames_ab)) = Inr (Some cs0)"
       "index frames_ab = Some (dates cs0)"
       "map_of (columns frames_ab) ''B'' = Some col"
       "reindex (dates cs0) (pct_change ?cs) = Inr col"
    by blast
  from c(1) ha have "cs0 = [(0, 100), (1, 110), (2, 121)]" by simp
  then have "dates cs0 = [0, 1, 2]" by (simp add: dates_def)
  with c ri have col: "index frames_ab = Some [0, 1, 2] \<and>
      map_of (columns frames_ab) ''B'' = Some [NaN, NaN, Fin (1 / 2)]"
    by simp
  have "list_all (\<lambda>p. p \<noteq> 0) (vals ?cs)"
    using nz unfolding list_all_iff .
  with ne hb ix pc series fl mem vt ha ri col show ?thesis by simp
qed

section \<open>Results on the value series\<close>

text \<open>
  Claim C5 says that the value series of a portfolio and of a benchmark have the value 100
  at the first date, and 100 times the cumulative product of one plus the return at the
  later dates. The benchmark has; the portfolio has not: for the ticker A with the prices
  100 and 110 and the weight 1, the value series of the benchmark A is 100, 110, while the
  value series of the portfolio made of A alone is \<open>NaN\<close>, 110, since the return at the
  first date is \<open>NaN\<close> and the cumulative product keeps it.
\<close>

theorem portfolio_value_starts_with_nan:
  "get_portfolio_historical_data history_a [''A''] [1]
     = Inr ([(0, NaN), (1, Fin 110)], [(0, NaN), (1, Fin (1 / 10))]) \<and>
   get_benchmark_data history_a ''A''
     = Inr ([(0, Fin 100), (1, Fin 110)], [(0, NaN), (1, Fin (1 / 10))])"
  by (simp add: get_benchmark_data_def benchmark_body_def history_a_def
      get_portfolio_historical_data_def portfolio_body_def no_frames_def set_column_def
      dates_def vals_def fsub_def cumprod_def Let_def)

section \<open>Results on the statistics of a series\<close>

lemma fadd_NaN_right [simp]: "fadd x NaN = NaN"
  by (cases x) simp_all

lemma fmul_NaN_right [simp]: "fmul x NaN = NaN"
  by (cases x) simp_all

lemma fdiv_NaN_right [simp]: "fdiv x NaN = NaN"
  by (cases x) simp_all

lemma fsub_NaN [simp]: "fsub x NaN = NaN" "fsub NaN y = NaN"
  by (simp_all add: fsub_def)

lemma no_inf_Cons: "no_inf (v # vs) \<longleftrightarrow> v \<noteq> PInf \<and> v \<noteq> NInf \<and> no_inf vs"
  by (simp add: no_inf_def)

lemma no_inf_Nil: "no_inf []"
  by (simp add: no_inf_def)

lemma nansum_observed: "no_inf vs \<Longrightarrow> nansum vs = Fin (sum_list (observed vs))"
proof (induction vs)
  case Nil
  show ?case by simp
next
  case (Cons v vs)
  then show ?case by (cases v) (simp_all add: no_inf_Cons)
qed

lemma count_valid_observed: "no_inf vs \<Longrightarrow> count_valid vs = length (observed vs)"
proof (induction vs)
  case Nil
  show ?case by (simp add: count_valid_def)
next
  case (Cons v vs)
  then show ?case by (cases v) (simp_all add: no_inf_Cons count_valid_def)
qed

lemma mean_observed:
  assumes "no_inf vs" and "observed vs \<noteq> []"
  shows "mean vs = Fin (spec_mean (observed vs))"
  using assms by (simp add: mean_def nansum_observed count_valid_observed spec_mean_def)

lemma mean_no_observation:
  assumes "no_inf vs" and "observed vs = []"
  shows "mean vs = NaN"
  using assms by (simp add: mean_def count_valid_observed)

lemma squares_observed:
  "no_inf vs \<Longrightarrow>
   fsum (map (\<lambda>v. if v = NaN then Fin 0 else fpow (fsub (Fin a) v) 2) vs)
     = Fin (\<Sum>x\<leftarrow>observed vs. (x - a)\<^sup>2)"
proof (induction vs)
  case Nil
  show ?case by simp
next
  case (Cons v vs)
  then show ?case
    by (cases v) (simp_all add: no_inf_Cons fsub_def power2_commute [of a])
qed

lemma var_observed:
  assumes "no_inf vs" and "2 \<le> length (observed vs)"
  shows "var vs = Fin (spec_variance (observed vs))"
proof -
  have n: "count_valid vs = length (observed vs)"
    using assms(1) by (rule count_valid_observed)
  have ne: "observed vs \<noteq> []" using assms(2) by auto
  have avg: "fdiv (nansum vs) (Fin (real (count_valid vs))) = Fin (spec_mean (observed vs))"
    using assms ne by (simp add: nansum_observed n spec_mean_def)
  show ?thesis
    using assms(2)
    by (simp add: var_def n [symmetric] avg Let_def squares_observed [OF assms(1)]
        spec_variance_def)
qed

lemma var_few_observations:
  assumes "no_inf vs" and "length (observed vs) \<le> 1"
  shows "var vs = NaN"
  using assms by (simp add: var_def count_valid_observed)

lemma spec_variance_nonneg: "0 \<le> spec_variance xs"
proof -
  have "0 \<le> (\<Sum>x\<leftarrow>xs. (x - spec_mean xs)\<^sup>2)"
    by (rule sum_list_nonneg) auto
  then show ?thesis by (simp add: spec_variance_def)
qed

lemma std_observed:
  assumes "no_inf vs" and "2 \<le> length (observed vs)"
  shows "std vs = Fin (spec_stddev (observed vs))"
  using var_observed [OF assms] spec_variance_nonneg [of "observed vs"]
  by (simp add: std_def spec_stddev_def)

lemma observed_shift:
  "observed (map (\<lambda>r. fsub r (Fin c)) vs) = map (\<lambda>x. x - c) (observed vs)"
proof (induction vs)
  case Nil
  show ?case by simp
next
  case (Cons v vs)
  then show ?case by (cases v) (simp_all add: fsub_def)
qed

lemma no_inf_shift: "no_inf vs \<Longrightarrow> no_inf (map (\<lambda>r. fsub r (Fin c)) vs)"
proof (induction vs)
  case Nil
  show ?case by (simp add: no_inf_def)
next
  case (Cons v vs)
  then show ?case by (cases v) (simp_all add: no_inf_Cons fsub_def)
qed

lemma calculate_metrics_sharpe:
  "returns \<noteq> [] \<Longrightarrow>
   calculate_metrics returns b ''sharpe_ratio'' = Some (sharpe_ratio (vals returns))"
  by (simp add: calculate_metrics_def Let_def split: option.splits)

text \<open>
  In exact arithmetic, for a series without infinite values and with at least two
  observations, the ratio is 0 when the standard deviation of the observations is zero,
  and the formula over the observations otherwise.
\<close>

lemma sharpe_ratio_observed:
  assumes "no_inf vs" and "2 \<le> length (observed vs)"
  shows "sharpe_ratio vs =
     (if spec_stddev (observed vs) = 0 then Fin 0
      else Fin (sqrt 252 * spec_mean (map (\<lambda>x. x - risk_free_rate / 252) (observed vs))
                / spec_stddev (observed vs)))"
proof -
  let ?ex = "map (\<lambda>r. fsub r (Fin (risk_free_rate / 252))) vs"
  have ne: "observed ?ex \<noteq> []"
    using assms(2) by (auto simp: observed_shift)
  have m: "mean ?ex = Fin (spec_mean (map (\<lambda>x. x - risk_free_rate / 252) (observed vs)))"
    using mean_observed [OF no_inf_shift [OF assms(1)] ne] by (simp add: observed_shift)
  show ?thesis
    by (simp add: sharpe_ratio_def Let_def std_observed [OF assms] m sqrt_252_def)
qed

text \<open>
  The guard of line 228 on the computed standard deviation: the constant 0 when it is
  zero, else the formula; with fewer than two observations the standard deviation is
  \<open>NaN\<close>, which is not zero, and so is the ratio.
\<close>

lemma sharpe_ratio_guard:
  assumes "returns \<noteq> []"
  shows "std (vals returns) = Fin 0 \<Longrightarrow>
           calculate_metrics returns b ''sharpe_ratio'' = Some (Fin 0)"
    and "std (vals returns) \<noteq> Fin 0 \<Longrightarrow>
           calculate_metrics returns b ''sharpe_ratio''
             = Some (fdiv (fmul (Fin (sqrt 252))
                             (mean (map (\<lambda>r. fsub r (Fin (2 / 100 / 252))) (vals returns))))
                       (std (vals returns)))"
    and "no_inf (vals returns) \<Longrightarrow> length (observed (vals returns)) \<le> 1 \<Longrightarrow>
           calculate_metrics returns b ''sharpe_ratio'' = Some NaN"
proof -
  note cm = calculate_metrics_sharpe [OF assms, of b]
  show "calculate_metrics returns b ''sharpe_ratio'' = Some (Fin 0)"
    if "std (vals returns) = Fin 0"
    using that by (simp add: cm sharpe_ratio_def)
  show "calculate_metrics returns b ''sharpe_ratio''
          = Some (fdiv (fmul (Fin (sqrt 252))
                          (mean (map (\<lambda>r. fsub r (Fin (2 / 100 / 252))) (vals returns))))
                    (std (vals returns)))"
    if "std (vals returns) \<noteq> Fin 0"
    using that by (simp add: cm sharpe_ratio_def sqrt_252_def risk_free_rate_def)
  show "calculate_metrics returns b ''sharpe_ratio'' = Some NaN"
    if "no_inf (vals returns)" "length (observed (vals returns)) \<le> 1"
    using that var_few_observations [of "vals returns"]
    by (simp add: cm sharpe_ratio_def std_def)
qed

section \<open>Results on beta and alpha\<close>

lemma joined_components:
  "(x, y) \<in> set (joined a b) \<Longrightarrow> x \<in> set (vals a) \<and> y \<in> set (vals b)"
proof (cases "dates a = dates b")
  case True
  assume "(x, y) \<in> set (joined a b)"
  with True have "(x, y) \<in> set (zip (vals a) (vals b))" by (simp add: joined_def)
  then show ?thesis by (auto dest: set_zip_leftD set_zip_rightD)
next
  case False
  assume "(x, y) \<in> set (joined a b)"
  with False show ?thesis by (auto simp: joined_def vals_def) force+
qed

lemma no_inf_member: "no_inf vs \<Longrightarrow> v \<in> set vs \<Longrightarrow> v \<noteq> PInf \<and> v \<noteq> NInf"
  by (auto simp: no_inf_def list_all_iff)

lemma complete_pairs:
  "\<forall>(x, y)\<in>set js. x \<noteq> PInf \<and> x \<noteq> NInf \<and> y \<noteq> PInf \<and> y \<noteq> NInf \<Longrightarrow>
   filter (\<lambda>(x, y). x \<noteq> NaN \<and> y \<noteq> NaN) js
     = map (\<lambda>(x, y). (Fin x, Fin y)) (observed_pairs js)"
proof (induction js)
  case Nil
  show ?case by simp
next
  case (Cons j js)
  obtain x y where j: "j = (x, y)" by (cases j)
  from Cons.prems have rest:
    "\<forall>(x, y)\<in>set js. x \<noteq> PInf \<and> x \<noteq> NInf \<and> y \<noteq> PInf \<and> y \<noteq> NInf" by simp
  from Cons.prems j have xy: "x \<noteq> PInf \<and> x \<noteq> NInf \<and> y \<noteq> PInf \<and> y \<noteq> NInf" by simp
  show ?case
    using Cons.IH [OF rest] xy j by (cases x; cases y) simp_all
qed

lemma fsum_fst_pairs:
  "fsum (map fst (map (\<lambda>(x, y). (Fin x, Fin y)) rp)) = Fin (sum_list (map fst rp))"
  by (induction rp) auto

lemma fsum_snd_pairs:
  "fsum (map snd (map (\<lambda>(x, y). (Fin x, Fin y)) rp)) = Fin (sum_list (map snd rp))"
  by (induction rp) auto

lemma fsum_products:
  "fsum (map (\<lambda>(x, y). fmul (fsub x (Fin A)) (fsub y (Fin B)))
             (map (\<lambda>(x, y). (Fin x, Fin y)) rp))
     = Fin (\<Sum>(x, y)\<leftarrow>rp. (x - A) * (y - B))"
  by (induction rp) (auto simp: fsub_def)

lemma cov_observed:
  assumes "no_inf (vals a)" and "no_inf (vals b)"
    and "2 \<le> length (observed_pairs (joined a b))"
  shows "cov a b = Fin (spec_covariance (observed_pairs (joined a b)))"
proof -
  let ?rp = "observed_pairs (joined a b)"
  have "\<forall>(x, y)\<in>set (joined a b). x \<noteq> PInf \<and> x \<noteq> NInf \<and> y \<noteq> PInf \<and> y \<noteq> NInf"
    using joined_components [of _ _ a b] no_inf_member [OF assms(1)] no_inf_member [OF assms(2)]
    by blast
  from complete_pairs [OF this]
  have ps: "filter (\<lambda>(x, y). x \<noteq> NaN \<and> y \<noteq> NaN) (joined a b)
              = map (\<lambda>(x, y). (Fin x, Fin y)) ?rp" .
  have n: "length ?rp \<noteq> 0" "real (length ?rp) \<noteq> 0" "real (length ?rp - 1) \<noteq> 0"
    using assms(3) by auto
  have one: "1 \<le> length ?rp" using assms(3) by simp
  show ?thesis
    unfolding cov_def ps Let_def length_map fsum_fst_pairs fsum_snd_pairs
    using n one
    by (simp add: fsum_products spec_covariance_def spec_mean_def of_nat_diff
        del: map_map)
qed

lemma observed_member: "Fin x \<in> set vs \<Longrightarrow> x \<in> set (observed vs)"
proof (induction vs)
  case Nil
  then show ?case by simp
next
  case (Cons v vs)
  then show ?case by (cases v) auto
qed

lemma observed_pairs_member: "(x, y) \<in> set (observed_pairs js) \<Longrightarrow> (Fin x, Fin y) \<in> set js"
proof (induction js)
  case Nil
  then show ?case by simp
next
  case (Cons j js)
  obtain p q where j: "j = (p, q)" by (cases j)
  from Cons j show ?case by (cases p; cases q) auto
qed

lemma paired_implies_observed:
  assumes "observed_pairs (joined a b) \<noteq> []"
  shows "observed (vals a) \<noteq> []"
proof -
  from assms obtain x y where "(x, y) \<in> set (observed_pairs (joined a b))"
    by (cases "observed_pairs (joined a b)") auto
  then have "(Fin x, Fin y) \<in> set (joined a b)" by (rule observed_pairs_member)
  then have "Fin x \<in> set (vals a)" using joined_components by blast
  then have "x \<in> set (observed (vals a))" by (rule observed_member)
  then show ?thesis by auto
qed

lemma annualized_finite: "annualized (Fin m) = Fin ((1 + m) ^ 252 - 1)"
  by (simp add: annualized_def fsub_def)

lemma calculate_metrics_beta_alpha:
  assumes "returns \<noteq> []" and "bench \<noteq> []"
  shows "calculate_metrics returns (Some bench) ''beta''
       = Some (if var (vals bench) \<noteq> Fin 0 then fdiv (cov returns bench) (var (vals bench))
               else Fin 1)"
    and "calculate_metrics returns (Some bench) ''alpha''
       = Some (if var (vals bench) \<noteq> Fin 0
               then fsub (fsub (annualized (mean (vals returns))) (Fin risk_free_rate))
                      (fmul (fdiv (cov returns bench) (var (vals bench)))
                         (fsub (annualized (mean (vals bench))) (Fin risk_free_rate)))
               else Fin 0)"
  using assms by (simp_all add: calculate_metrics_def Let_def annualized_def)

text \<open>
  In exact arithmetic, for series without infinite values, with at least two observations
  of the benchmark, a variance of these different from zero and at least two paired
  observations, beta and alpha are the formulas over the observations.
\<close>

lemma beta_alpha_observed:
  assumes "returns \<noteq> []" and "bench \<noteq> []"
    and h: "no_inf (vals returns)" "no_inf (vals bench)"
       "2 \<le> length (observed (vals bench))"
       "spec_variance (observed (vals bench)) \<noteq> 0"
       "2 \<le> length (observed_pairs (joined returns bench))"
  shows "calculate_metrics returns (Some bench) ''beta''
             = Some (Fin (spec_covariance (observed_pairs (joined returns bench))
                          / spec_variance (observed (vals bench)))) \<and>
         calculate_metrics returns (Some bench) ''alpha''
             = Some (Fin (((1 + spec_mean (observed (vals returns))) ^ 252 - 1 - 2 / 100)
                          - spec_covariance (observed_pairs (joined returns bench))
                            / spec_variance (observed (vals bench))
                            * ((1 + spec_mean (observed (vals bench))) ^ 252 - 1 - 2 / 100)))"
proof -
  note ba = calculate_metrics_beta_alpha [OF assms(1,2)]
  have v: "var (vals bench) = Fin (spec_variance (observed (vals bench)))"
    using var_observed [OF h(2,3)] .
  have c: "cov returns bench = Fin (spec_covariance (observed_pairs (joined returns bench)))"
    using cov_observed [OF h(1,2,5)] .
  have "observed_pairs (joined returns bench) \<noteq> []" using h(5) by auto
  then have "observed (vals returns) \<noteq> []" by (rule paired_implies_observed)
  then have mr: "mean (vals returns) = Fin (spec_mean (observed (vals returns)))"
    using mean_observed [OF h(1)] by simp
  have "observed (vals bench) \<noteq> []" using h(3) by auto
  then have mb: "mean (vals bench) = Fin (spec_mean (observed (vals bench)))"
    using mean_observed [OF h(2)] by simp
  show ?thesis
    using h(4)
    by (simp add: ba v c mr mb annualized_finite fsub_def risk_free_rate_def)
qed

text \<open>
  The guard of line 244 on the computed variance of the benchmark returns: the constants 1
  and 0 when it is zero, else the two formulas.
\<close>

lemma beta_alpha_guard:
  assumes "returns \<noteq> []" and "bench \<noteq> []"
  shows "var (vals bench) = Fin 0 \<Longrightarrow>
           calculate_metrics returns (Some bench) ''beta'' = Some (Fin 1) \<and>
           calculate_metrics returns (Some bench) ''alpha'' = Some (Fin 0)"
    and "var (vals bench) \<noteq> Fin 0 \<Longrightarrow>
           calculate_metrics returns (Some bench) ''beta''
             = Some (fdiv (cov returns bench) (var (vals bench))) \<and>
           calculate_metrics returns (Some bench) ''alpha''
             = Some (fsub (fsub (fsub (fpow (fadd (Fin 1) (mean (vals returns))) 252) (Fin 1))
                             (Fin (2 / 100)))
                       (fmul (fdiv (cov returns bench) (var (vals bench)))
                          (fsub (fsub (fpow (fadd (Fin 1) (mean (vals bench))) 252) (Fin 1))
                             (Fin (2 / 100)))))"
proof -
  note ba = calculate_metrics_beta_alpha [OF assms]
  show "calculate_metrics returns (Some bench) ''beta'' = Some (Fin 1) \<and>
        calculate_metrics returns (Some bench) ''alpha'' = Some (Fin 0)"
    if "var (vals bench) = Fin 0"
    using that by (simp add: ba)
  show "calculate_metrics returns (Some bench) ''beta''
          = Some (fdiv (cov returns bench) (var (vals bench))) \<and>
        calculate_metrics returns (Some bench) ''alpha''
          = Some (fsub (fsub (fsub (fpow (fadd (Fin 1) (mean (vals returns))) 252) (Fin 1))
                          (Fin (2 / 100)))
                    (fmul (fdiv (cov returns bench) (var (vals bench)))
                       (fsub (fsub (fpow (fadd (Fin 1) (mean (vals bench))) 252) (Fin 1))
                          (Fin (2 / 100)))))"
    if "var (vals bench) \<noteq> Fin 0"
    using that by (simp add: ba annualized_def risk_free_rate_def)
qed

section \<open>Results on the maximum drawdown\<close>

lemma nanmax2_opt_float:
  "nanmax2 (opt_float m) (Fin c) = Fin (case m of None \<Rightarrow> c | Some a \<Rightarrow> max a c)"
  by (auto simp: nanmax2_def opt_float_def split: option.splits)

lemma nanmax2_NaN_right: "nanmax2 m NaN = m"
  by (simp add: nanmax2_def)

lemma nanmin2_NaN_right: "nanmin2 z NaN = z"
  by (simp add: nanmin2_def)

lemma drawdowns_one_pass:
  "no_inf vs \<Longrightarrow>
   foldl nanmin2 z
     (map (\<lambda>(c, m). fsub (fdiv c m) (Fin 1))
        (zip (cumprod_from (Fin c) (map (fadd (Fin 1)) vs))
             (expanding_max_from (opt_float m) (cumprod_from (Fin c) (map (fadd (Fin 1)) vs)))))
   = foldl nanmin2 z (drawdowns_from c m (observed vs))"
proof (induction vs arbitrary: c m z)
  case Nil
  show ?case by simp
next
  case (Cons v vs)
  from Cons.prems have rest: "no_inf vs" and v: "v \<noteq> PInf" "v \<noteq> NInf"
    by (simp_all add: no_inf_Cons)
  show ?case
  proof (cases v)
    case (Fin x)
    define c' where "c' = c * (1 + x)"
    define m' where "m' = (case m of None \<Rightarrow> c' | Some a \<Rightarrow> max a c')"
    define z' where "z' = nanmin2 z (fsub (fdiv (Fin c') (Fin m')) (Fin 1))"
    have IH: "foldl nanmin2 z'
       (map (\<lambda>(c, m). fsub (fdiv c m) (Fin 1))
          (zip (cumprod_from (Fin c') (map (fadd (Fin 1)) vs))
               (expanding_max_from (Fin m') (cumprod_from (Fin c') (map (fadd (Fin 1)) vs)))))
       = foldl nanmin2 z' (drawdowns_from c' (Some m') (observed vs))"
      using Cons.IH [OF rest, of z' c' "Some m'"] by (simp add: opt_float_def)
    have step: "nanmax2 (opt_float m) (Fin c') = Fin m'"
      by (simp add: nanmax2_opt_float m'_def)
    have lhs: "cumprod_from (Fin c) (map (fadd (Fin 1)) (v # vs))
                 = Fin c' # cumprod_from (Fin c') (map (fadd (Fin 1)) vs)"
      using Fin by (simp add: c'_def)
    have rhs: "drawdowns_from c m (observed (v # vs))
                 = fsub (fdiv (Fin c') (Fin m')) (Fin 1) # drawdowns_from c' (Some m') (observed vs)"
      using Fin by (simp add: Let_def c'_def m'_def del: fdiv.simps cong: option.case_cong)
    show ?thesis
      unfolding lhs rhs using IH
      by (simp add: step z'_def del: fdiv.simps)
  next
    case NaN
    then show ?thesis
      by (simp add: nanmax2_NaN_right nanmin2_NaN_right Cons.IH [OF rest])
  qed (use v in simp_all)
qed

lemma cum_prod_at_0: "xs \<noteq> [] \<Longrightarrow> cum_prod_at xs 0 = 1 + hd xs"
  by (cases xs) (simp_all add: cum_prod_at_def)

lemma cum_prod_at_Suc:
  "Suc i < length xs \<Longrightarrow> cum_prod_at xs (Suc i) = cum_prod_at xs i * (1 + xs ! Suc i)"
  by (simp add: cum_prod_at_def take_Suc_conv_app_nth [of "Suc i"])

lemma running_max_at_0: "running_max_at xs 0 = cum_prod_at xs 0"
  by (simp add: running_max_at_def)

lemma running_max_at_Suc:
  "running_max_at xs (Suc i) = max (running_max_at xs i) (cum_prod_at xs (Suc i))"
  by (simp add: running_max_at_def atMost_Suc max.commute)

lemma drawdowns_from_drop:
  "k < length xs \<Longrightarrow>
   drawdowns_from (cum_prod_at xs k) (Some (running_max_at xs k)) (drop (Suc k) xs)
     = map (\<lambda>i. fsub (fdiv (Fin (cum_prod_at xs i)) (Fin (running_max_at xs i))) (Fin 1))
         [Suc k..<length xs]"
proof (induction "length xs - Suc k" arbitrary: k)
  case 0
  then show ?case by simp
next
  case (Suc n)
  then have lt: "Suc k < length xs" by simp
  have n: "n = length xs - Suc (Suc k)" using Suc.hyps(2) by simp
  have d: "drop (Suc k) xs = xs ! Suc k # drop (Suc (Suc k)) xs"
    using lt by (simp add: Cons_nth_drop_Suc)
  have u: "[Suc k..<length xs] = Suc k # [Suc (Suc k)..<length xs]"
    using lt by (simp add: upt_conv_Cons)
  show ?case
    unfolding d u
    using Suc.hyps(1) [OF n lt] lt
    by (simp add: Let_def cum_prod_at_Suc running_max_at_Suc)
qed

lemma drawdowns_from_start:
  "drawdowns_from 1 None xs
     = map (\<lambda>i. fsub (fdiv (Fin (cum_prod_at xs i)) (Fin (running_max_at xs i))) (Fin 1))
         [0..<length xs]"
proof (cases xs)
  case Nil
  then show ?thesis by simp
next
  case (Cons x rest)
  have u: "[0..<length xs] = 0 # [Suc 0..<length xs]"
    using Cons by (subst upt_rec) simp
  have c0: "cum_prod_at xs 0 = 1 + x" using Cons by (simp add: cum_prod_at_def)
  have "drawdowns_from (cum_prod_at xs 0) (Some (running_max_at xs 0)) (drop (Suc 0) xs)
     = map (\<lambda>i. fsub (fdiv (Fin (cum_prod_at xs i)) (Fin (running_max_at xs i))) (Fin 1))
         [Suc 0..<length xs]"
    using Cons by (intro drawdowns_from_drop) simp
  then show ?thesis
    unfolding u using Cons c0 by (simp add: Let_def running_max_at_0)
qed

lemma Min_insert_insert:
  "finite S \<Longrightarrow> Min (insert a (insert b S)) = Min (insert (min a b) (S :: real set))"
  by (cases "S = {}") (simp_all add: min.assoc)

lemma nanmin2_Fin: "nanmin2 (Fin z) (Fin y) = Fin (min z y)"
  by (auto simp: nanmin2_def)

lemma foldl_nanmin2_Fin:
  "foldl nanmin2 (Fin z) (map Fin ys) = Fin (Min (insert z (set ys)))"
proof (induction ys arbitrary: z)
  case Nil
  show ?case by simp
next
  case (Cons y ys)
  show ?case
    using Cons [of "min z y"] Min_insert_insert [of "set ys" z y]
    by (simp add: nanmin2_Fin)
qed

lemma nanmin_Fin: "ys \<noteq> [] \<Longrightarrow> nanmin (map Fin ys) = Fin (Min (set ys))"
  by (cases ys) (simp_all add: nanmin_def nanmin2_def foldl_nanmin2_Fin)

lemma max_drawdown_observed:
  assumes "no_inf vs" and "observed vs \<noteq> []"
    and "\<forall>i<length (observed vs). running_max_at (observed vs) i \<noteq> 0"
  shows "max_drawdown vs = Fin (spec_max_drawdown (observed vs))"
proof -
  let ?xs = "observed vs"
  have "max_drawdown vs = foldl nanmin2 NaN (drawdowns_from 1 None ?xs)"
    using drawdowns_one_pass [OF assms(1), of NaN 1 None]
    by (simp add: max_drawdown_def Let_def cumprod_def expanding_max_def nanmin_def
        opt_float_def)
  also have "drawdowns_from 1 None ?xs
     = map (\<lambda>i. fsub (fdiv (Fin (cum_prod_at ?xs i)) (Fin (running_max_at ?xs i))) (Fin 1))
         [0..<length ?xs]"
    by (rule drawdowns_from_start)
  also have "\<dots> = map Fin (map (spec_drawdown_at ?xs) [0..<length ?xs])"
    using assms(3) by (simp add: spec_drawdown_at_def fsub_def)
  also have "foldl nanmin2 NaN \<dots> = Fin (Min (set (map (spec_drawdown_at ?xs) [0..<length ?xs])))"
    using nanmin_Fin [of "map (spec_drawdown_at ?xs) [0..<length ?xs]"] assms(2)
    by (simp add: nanmin_def)
  also have "set (map (spec_drawdown_at ?xs) [0..<length ?xs])
               = spec_drawdown_at ?xs ` {..<length ?xs}"
    by (simp add: atLeast0LessThan)
  finally show ?thesis by (simp add: spec_max_drawdown_def)
qed

lemma prod_list_positive: "\<forall>y\<in>set ys. 0 < y \<Longrightarrow> 0 < prod_list (ys :: real list)"
  by (induction ys) simp_all

lemma cum_prod_at_positive:
  assumes "\<forall>x\<in>set xs. - 1 < x"
  shows "0 < cum_prod_at xs i"
proof -
  have "\<forall>x\<in>set (take (Suc i) xs). - 1 < x"
    using assms by (auto dest: in_set_takeD)
  then have "\<forall>y\<in>set (map (\<lambda>x. 1 + x) (take (Suc i) xs)). 0 < y"
    by auto
  then show ?thesis
    unfolding cum_prod_at_def by (rule prod_list_positive)
qed

lemma running_max_at_positive:
  assumes "\<forall>x\<in>set xs. - 1 < x"
  shows "0 < running_max_at xs i"
proof -
  have "cum_prod_at xs 0 \<le> running_max_at xs i"
    unfolding running_max_at_def by (rule Max_ge) simp_all
  with cum_prod_at_positive [OF assms, of 0] show ?thesis by simp
qed

section \<open>Results on the annualized metrics\<close>

lemma calculate_metrics_basic:
  assumes "returns \<noteq> []"
  shows "calculate_metrics returns b ''annualized_return''
           = Some (annualized (mean (vals returns)))"
    and "calculate_metrics returns b ''annualized_volatility''
           = Some (fmul (std (vals returns)) sqrt_252)"
    and "calculate_metrics returns b ''max_drawdown'' = Some (max_drawdown (vals returns))"
  using assms by (simp_all add: calculate_metrics_def Let_def split: option.splits)

lemma max_drawdown_scenario:
  "max_drawdown (vals series_scenario) = Fin (9898 / 10000 / (101 / 100) - 1)"
  by (simp add: series_scenario_def vals_def max_drawdown_def cumprod_def expanding_max_def
      nanmin_def nanmax2_def nanmin2_def fsub_def Let_def)

text \<open>
  Claim C2. For every non-empty return series, the annualized return is one plus the mean
  of the returns, to the power 252, less one; the annualized volatility is the sample
  standard deviation of the returns times the square root of 252; and the maximum drawdown
  is the least, over the observations \<open>i\<close>, of the cumulative product of one plus the
  return up to \<open>i\<close> over its prefix maximum up to \<open>i\<close>, less one. The mean, the standard
  deviation and the drawdown are those of the observations of the series (its values that
  are not \<open>NaN\<close>), for a series without infinite values; the standard deviation needs two
  observations, and the drawdown a prefix maximum different from zero. The returns 0.01,
  -0.02, 0.03 give the maximum drawdown 0.9898/1.01 - 1, which is -0.02.
\<close>

theorem annualized_metrics_and_drawdown:
  assumes "returns \<noteq> []"
  shows "calculate_metrics returns b ''annualized_return''
       = Some (fsub (fpow (fadd (Fin 1) (mean (vals returns))) 252) (Fin 1)) \<and>
     calculate_metrics returns b ''annualized_volatility''
       = Some (fmul (std (vals returns)) (Fin (sqrt 252))) \<and>
     (no_inf (vals returns) \<longrightarrow>
        (observed (vals returns) \<noteq> [] \<longrightarrow>
           calculate_metrics returns b ''annualized_return''
             = Some (Fin ((1 + spec_mean (observed (vals returns))) ^ 252 - 1))) \<and>
        (2 \<le> length (observed (vals returns)) \<longrightarrow>
           calculate_metrics returns b ''annualized_volatility''
             = Some (Fin (spec_stddev (observed (vals returns)) * sqrt 252))) \<and>
        (observed (vals returns) \<noteq> [] \<and>
         (\<forall>i<length (observed (vals returns)).
            running_max_at (observed (vals returns)) i \<noteq> 0) \<longrightarrow>
           calculate_metrics returns b ''max_drawdown''
             = Some (Fin (spec_max_drawdown (observed (vals returns)))))) \<and>
     calculate_metrics series_scenario None ''max_drawdown''
       = Some (Fin (9898 / 10000 / (101 / 100) - 1)) \<and>
     (9898 / 10000 / (101 / 100) - 1 :: real) = - 2 / 100"
proof -
  note cm = calculate_metrics_basic [OF assms, of b]
  have 1: "calculate_metrics returns b ''annualized_return''
       = Some (fsub (fpow (fadd (Fin 1) (mean (vals returns))) 252) (Fin 1))"
    by (simp add: cm annualized_def)
  have 2: "calculate_metrics returns b ''annualized_volatility''
       = Some (fmul (std (vals returns)) (Fin (sqrt 252)))"
    by (simp add: cm sqrt_252_def)
  have 3: "calculate_metrics returns b ''annualized_return''
             = Some (Fin ((1 + spec_mean (observed (vals returns))) ^ 252 - 1))"
    if "no_inf (vals returns)" "observed (vals returns) \<noteq> []"
    using mean_observed [OF that] by (simp add: cm annualized_finite)
  have 4: "calculate_metrics returns b ''annualized_volatility''
             = Some (Fin (spec_stddev (observed (vals returns)) * sqrt 252))"
    if "no_inf (vals returns)" "2 \<le> length (observed (vals returns))"
    using std_observed [OF that] by (simp add: cm sqrt_252_def)
  have 5: "calculate_metrics returns b ''max_drawdown''
             = Some (Fin (spec_max_drawdown (observed (vals returns))))"
    if "no_inf (vals returns)" "observed (vals returns) \<noteq> []"
       "\<forall>i<length (observed (vals returns)). running_max_at (observed (vals returns)) i \<noteq> 0"
    using max_drawdown_observed [OF that] by (simp add: cm)
  have ne: "series_scenario \<noteq> []" by (simp add: series_scenario_def)
  have 6: "calculate_metrics series_scenario None ''max_drawdown''
       = Some (Fin (9898 / 10000 / (101 / 100) - 1))"
    unfolding calculate_metrics_basic(3) [OF ne] max_drawdown_scenario ..
  have 7: "(9898 / 10000 / (101 / 100) - 1 :: real) = - 2 / 100" by simp
  from 1 2 3 4 5 6 7 show ?thesis by blast
qed

theorem annualized_metrics_and_drawdown_witness:
  "series_scenario \<noteq> [] \<and> no_inf (vals series_scenario) \<and>
   observed (vals series_scenario) \<noteq> [] \<and> 2 \<le> length (observed (vals series_scenario)) \<and>
   list_all (\<lambda>i. running_max_at (observed (vals series_scenario)) i \<noteq> 0)
     [0..<length (observed (vals series_scenario))] \<and>
   calculate_metrics series_scenario None ''annualized_return''
     = Some (Fin ((1 + spec_mean (observed (vals series_scenario))) ^ 252 - 1)) \<and>
   calculate_metrics series_scenario None ''annualized_volatility''
     = Some (Fin (spec_stddev (observed (vals series_scenario)) * sqrt 252)) \<and>
   calculate_metrics series_scenario None ''max_drawdown''
     = Some (Fin (spec_max_drawdown (observed (vals series_scenario)))) \<and>
   spec_max_drawdown (observed (vals series_scenario)) = - 2 / 100"
proof -
  have ob: "observed (vals series_scenario) = [1 / 100, - 2 / 100, 3 / 100]"
    by (simp add: series_scenario_def vals_def)
  have a: "series_scenario \<noteq> [] \<and> no_inf (vals series_scenario)"
    by (simp add: series_scenario_def vals_def no_inf_def)
  have b: "observed (vals series_scenario) \<noteq> [] \<and>
           2 \<le> length (observed (vals series_scenario))"
    by (simp add: ob)
  have "\<forall>x\<in>set (observed (vals series_scenario)). - 1 < x" by (simp add: ob)
  then have "0 < running_max_at (observed (vals series_scenario)) i" for i
    by (rule running_max_at_positive)
  then have c: "\<forall>i<length (observed (vals series_scenario)).
      running_max_at (observed (vals series_scenario)) i \<noteq> 0"
    by (simp add: less_imp_neq [THEN not_sym])
  from annualized_metrics_and_drawdown [of series_scenario None] a b c
  have r: "calculate_metrics series_scenario None ''annualized_return''
     = Some (Fin ((1 + spec_mean (observed (vals series_scenario))) ^ 252 - 1)) \<and>
   calculate_metrics series_scenario None ''annualized_volatility''
     = Some (Fin (spec_stddev (observed (vals series_scenario)) * sqrt 252)) \<and>
   calculate_metrics series_scenario None ''max_drawdown''
     = Some (Fin (spec_max_drawdown (observed (vals series_scenario)))) \<and>
   calculate_metrics series_scenario None ''max_drawdown''
       = Some (Fin (9898 / 10000 / (101 / 100) - 1)) \<and>
     (9898 / 10000 / (101 / 100) - 1 :: real) = - 2 / 100"
    by blast
  from r have "Some (Fin (spec_max_drawdown (observed (vals series_scenario))))
                 = Some (Fin (9898 / 10000 / (101 / 100) - 1))"
    by metis
  then have "spec_max_drawdown (observed (vals series_scenario)) = - 2 / 100" by simp
  moreover have "list_all (\<lambda>i. running_max_at (observed (vals series_scenario)) i \<noteq> 0)
     [0..<length (observed (vals series_scenario))]"
    using c unfolding list_all_iff by simp
  ultimately show ?thesis using a b r by blast
qed

section \<open>Supporting results on the value series\<close>

lemma cumprod_from_length: "length (cumprod_from acc vs) = length vs"
  by (induction vs arbitrary: acc) simp_all

lemma builder_series_same_dates:
  assumes "get_portfolio_historical_data h ts ws = Inr (pv, pr)"
  shows "dates pv = dates pr \<and> (pv = [] \<longleftrightarrow> pr = [])"
proof -
  have "dates pv = dates pr"
    using assms
    by (auto simp: get_portfolio_historical_data_def portfolio_body_def Let_def dates_def
        cumprod_def cumprod_from_length map_fst_zip_take split: sum.splits if_splits)
  then show ?thesis by (auto simp: dates_def)
qed

lemma benchmark_series_same_dates:
  assumes "get_benchmark_data h b = Inr (bv, br)"
  shows "dates bv = dates br \<and> (bv = [] \<longleftrightarrow> br = [])"
proof -
  have "dates bv = dates br"
    using assms pct_rest_dates
    by (auto simp: get_benchmark_data_def benchmark_body_def Let_def dates_def comp_def
        case_prod_beta split: sum.splits if_splits option.splits list.splits)
  then show ?thesis by (auto simp: dates_def)
qed

lemma benchmark_value_first:
  assumes "b \<noteq> []" and "h b = Inr (Some ((d0, p0) # rest))" and "p0 \<noteq> 0"
  shows "map_sum id fst (get_benchmark_data h b)
           = Inr ((d0, Fin 100) # map (\<lambda>(d, p). (d, Fin (p / p0 * 100))) rest)"
  using assms
  by (simp add: get_benchmark_data_def benchmark_body_def Let_def case_prod_beta)

lemma frames_led_start: "frames_led h no_frames"
  by (simp add: frames_led_def no_frames_def)

lemma frames_led_step:
  assumes "frames_led h st" and "h t = Inr (Some cs)" and "cs \<noteq> []"
    and "set_column st t (pct_change cs) = Inr st1"
  shows "frames_led h (st1\<lparr>valid_tickers := valid_tickers st1 @ [t],
                           valid_weights := valid_weights st1 @ [w]\<rparr>)"
proof (cases "index st")
  case None
  with assms(1) have "valid_tickers st = []" by (auto simp: frames_led_def)
  with None assms(2,3,4) show ?thesis
    by (auto simp: set_column_def frames_led_def)
next
  case (Some idx)
  with assms(1) obtain cs0 where
    v: "valid_tickers st \<noteq> []" and
    c0: "cs0 \<noteq> []" "h (hd (valid_tickers st)) = Inr (Some cs0)"
        "idx = dates (pct_change cs0)"
        "map_of (columns st) (hd (valid_tickers st)) = Some (vals (pct_change cs0))"
    by (auto simp: frames_led_def)
  from assms(4) Some obtain vs where
    r: "reindex idx (pct_change cs) = Inr vs" and
    st1: "st1 = st\<lparr>columns := (t, vs) # columns st\<rparr>"
    by (auto simp: set_column_def split: sum.splits)
  have col: "map_of (columns st1) (hd (valid_tickers st)) = Some (vals (pct_change cs0))"
  proof (cases "t = hd (valid_tickers st)")
    case True
    with assms(2) c0(2) have "cs = cs0" by simp
    with r c0(3) have "vs = vals (pct_change cs0)" by (simp add: reindex_def)
    with True st1 show ?thesis by simp
  next
    case False
    with st1 c0(4) show ?thesis by simp
  qed
  show ?thesis
    using v c0 col st1 Some by (auto simp: frames_led_def)
qed

lemma fetch_loop_frames_led:
  "frames_led h st \<Longrightarrow> fetch_loop h items st = Inr st' \<Longrightarrow> frames_led h st'"
proof (induction items arbitrary: st)
  case Nil
  then show ?case by simp
next
  case (Cons a items)
  obtain t w where a: "a = (t, w)" by (cases a)
  show ?case
  proof (cases "h t")
    case (Inl e)
    with Cons.prems a show ?thesis by simp
  next
    case (Inr r)
    show ?thesis
    proof (cases r)
      case None
      with Inr a Cons.prems Cons.IH [of st] show ?thesis by auto
    next
      case (Some cs)
      show ?thesis
      proof (cases "cs = []")
        case True
        with Some Inr a Cons.prems Cons.IH [of st] show ?thesis by auto
      next
        case False
        show ?thesis
        proof (cases "set_column st t (pct_change cs)")
          case (Inl e)
          with False Some \<open>h t = Inr r\<close> a Cons.prems show ?thesis by simp
        next
          case st1: (Inr st1)
          have led: "frames_led h (st1\<lparr>valid_tickers := valid_tickers st1 @ [t],
                           valid_weights := valid_weights st1 @ [w]\<rparr>)"
            using frames_led_step [OF Cons.prems(1) _ False st1] Inr Some by simp
          have "fetch_loop h items (st1\<lparr>valid_tickers := valid_tickers st1 @ [t],
                           valid_weights := valid_weights st1 @ [w]\<rparr>) = Inr st'"
            using Cons.prems(2) a Inr Some False st1 by simp
          from Cons.IH [OF led this] show ?thesis .
        qed
      qed
    qed
  qed
qed

lemma add_columns_head:
  "acc = [] \<or> hd acc = NaN \<Longrightarrow> add_columns cols items acc = Inr pr \<Longrightarrow>
   pr = [] \<or> hd pr = NaN"
proof (induction items arbitrary: acc)
  case Nil
  then show ?case by simp
next
  case (Cons a items)
  obtain t w where a: "a = (t, w)" by (cases a)
  from Cons.prems(2) a obtain col where
    col: "map_of cols t = Some col" and
    next_step: "add_columns cols items (map (\<lambda>(a, v). fadd a (fmul v (Fin w))) (zip acc col))
                  = Inr pr"
    by (auto split: option.splits)
  have "map (\<lambda>(a, v). fadd a (fmul v (Fin w))) (zip acc col) = [] \<or>
        hd (map (\<lambda>(a, v). fadd a (fmul v (Fin w))) (zip acc col)) = NaN"
    using Cons.prems(1) by (cases acc; cases col) auto
  from Cons.IH [OF this next_step] show ?case .
qed

lemma pct_change_head: "cs \<noteq> [] \<Longrightarrow> hd (vals (pct_change cs)) = NaN"
  by (cases cs) (auto simp: vals_def)

text \<open>
  Whenever the series builder returns a value series that is not empty, the first value
  of the series is \<open>NaN\<close>, and so is the first return.
\<close>

lemma portfolio_value_first_nan:
  assumes "get_portfolio_historical_data h ts ws = Inr (pv, pr)" and "pv \<noteq> []"
  shows "snd (hd pv) = NaN \<and> snd (hd pr) = NaN"
proof -
  from assms have body: "portfolio_body h ts ws = Inr (pv, pr)"
    by (auto simp: get_portfolio_historical_data_def split: sum.splits)
  with assms(2) obtain st where
    loop: "fetch_loop h (zip ts ws) no_frames = Inr st" and
    valid: "valid_tickers st \<noteq> []"
    by (auto simp: portfolio_body_def Let_def split: sum.splits if_splits)
  from fetch_loop_frames_led [OF frames_led_start loop] valid obtain cs where
    w: "valid_weights st \<noteq> []" and
    cs: "cs \<noteq> []" "index st = Some (dates (pct_change cs))"
        "map_of (columns st) (hd (valid_tickers st)) = Some (vals (pct_change cs))"
    by (auto simp: frames_led_def)
  define tw where "tw = sum_list (valid_weights st)"
  define idx where "idx = dates (pct_change cs)"
  define items where "items = zip (valid_tickers st) (map (\<lambda>w. w / tw) (valid_weights st))"
  from body loop valid cs(2) assms(2) obtain rs where
    add: "add_columns (columns st) items (replicate (length idx) (Fin 0)) = Inr rs" and
    pv: "pv = zip idx (map (\<lambda>v. fmul v (Fin 100)) (cumprod (map (fadd (Fin 1)) rs)))" and
    pr: "pr = zip idx rs"
    by (auto simp: portfolio_body_def Let_def tw_def idx_def items_def
        split: sum.splits if_splits)
  obtain w0 rest where items: "items = (hd (valid_tickers st), w0) # rest"
    using valid w by (cases "valid_tickers st"; cases "valid_weights st") (auto simp: items_def)
  define acc where
    "acc = map (\<lambda>(a, v). fadd a (fmul v (Fin w0)))
             (zip (replicate (length idx) (Fin 0)) (vals (pct_change cs)))"
  have step: "add_columns (columns st) rest acc = Inr rs"
    using add items cs(3) by (simp add: acc_def)
  have "acc = [] \<or> hd acc = NaN"
    using pct_change_head [OF cs(1)]
    by (cases "vals (pct_change cs)"; cases "length idx") (auto simp: acc_def)
  from add_columns_head [OF this step] have rs: "rs = [] \<or> hd rs = NaN" .
  from assms(2) pv have ne: "rs \<noteq> []" "idx \<noteq> []"
    by (auto simp: cumprod_def)
  with rs have h: "hd rs = NaN" by simp
  obtain r rs' where rs': "rs = r # rs'" using ne by (cases rs) auto
  obtain i idx' where idx': "idx = i # idx'" using ne by (cases idx) auto
  from h rs' have "r = NaN" by simp
  with pv pr rs' idx' show ?thesis by (simp add: cumprod_def)
qed

lemma cumprod_pct_rest:
  "prev \<noteq> 0 \<Longrightarrow> \<forall>p\<in>set (vals ps). p \<noteq> 0 \<Longrightarrow>
   cumprod_from (Fin c) (map (fadd (Fin 1)) (vals (pct_rest prev ps)))
     = map (\<lambda>p. Fin (c * p / prev)) (vals ps)"
proof (induction ps arbitrary: prev c)
  case Nil
  show ?case by (simp add: vals_def)
next
  case (Cons a ps)
  obtain d p where a: "a = (d, p)" by (cases a)
  from Cons.prems a have p: "p \<noteq> 0" and rest: "\<forall>p\<in>set (vals ps). p \<noteq> 0"
    by (simp_all add: vals_def)
  have IH: "cumprod_from (Fin (c * p / prev)) (map (fadd (Fin 1)) (vals (pct_rest p ps)))
     = map (\<lambda>q. Fin (c * q / prev)) (vals ps)"
    using Cons.IH [OF p rest, of "c * p / prev"] p by simp
  show ?case
    using Cons.prems(1) a IH by (simp add: vals_def fsub_def)
qed

text \<open>
  For prices different from zero, the value series of the benchmark is 100 at the first
  date and, at every later date, 100 times the cumulative product of one plus the return:
  the series that the formula of the portfolio gives at the later dates.
\<close>

lemma benchmark_value_cumulative_product:
  assumes "b \<noteq> []" and "h b = Inr (Some ((d0, p0) # rest))"
    and "\<forall>p\<in>set (vals ((d0, p0) # rest)). p \<noteq> 0"
    and "get_benchmark_data h b = Inr (bv, br)"
  shows "hd bv = (d0, Fin 100) \<and>
     tl (vals bv) = tl (map (\<lambda>v. fmul v (Fin 100)) (cumprod (map (fadd (Fin 1)) (vals br))))"
proof -
  from assms(3) have p0: "p0 \<noteq> 0" and nz: "\<forall>p\<in>set (vals rest). p \<noteq> 0"
    by (simp_all add: vals_def)
  from assms(1,2,4) have bv: "bv = map (\<lambda>(d, p). (d, fmul (fdiv (Fin p) (Fin p0)) (Fin 100)))
                                   ((d0, p0) # rest)"
    and br: "br = (d0, NaN) # pct_rest p0 rest"
    by (auto simp: get_benchmark_data_def benchmark_body_def)
  have "cumprod_from (Fin 1) (map (fadd (Fin 1)) (vals (pct_rest p0 rest)))
          = map (\<lambda>p. Fin (1 * p / p0)) (vals rest)"
    using p0 nz by (rule cumprod_pct_rest)
  then show ?thesis
    using p0 by (simp add: bv br vals_def cumprod_def comp_def case_prod_beta)
qed

section \<open>Results on the two guards in double precision\<close>

lemma pow2_powr: "pow2 e = 2 powr (of_int e)"
proof (cases "0 \<le> e")
  case True
  then show ?thesis by (simp add: pow2_def powr_realpow [symmetric])
next
  case False
  then have e: "real_of_int e = - real (nat (- e))" by simp
  have "2 powr real_of_int e = 1 / 2 powr real (nat (- e))"
    unfolding e by (simp only: powr_minus_divide)
  also have "\<dots> = 1 / 2 ^ nat (- e)"
    by (simp add: powr_realpow)
  finally show ?thesis using False by (simp add: pow2_def)
qed

lemma pow2_pos: "0 < pow2 e"
  by (simp add: pow2_powr)

lemma binade_eq:
  assumes "pow2 e \<le> \<bar>x\<bar>" and "\<bar>x\<bar> < pow2 (e + 1)"
  shows "\<lfloor>log 2 \<bar>x\<bar>\<rfloor> = e"
proof -
  have pos: "0 < \<bar>x\<bar>" using assms(1) pow2_pos [of e] by linarith
  have "of_int e \<le> log 2 \<bar>x\<bar>"
    using assms(1) pos by (simp add: le_log_iff pow2_powr)
  moreover have "log 2 \<bar>x\<bar> < of_int e + 1"
    using assms(2) pos by (simp add: log_less_iff pow2_powr)
  ultimately show ?thesis by (rule floor_unique)
qed

lemma to_double_binade:
  assumes "pow2 e \<le> \<bar>x\<bar>" and "\<bar>x\<bar> < pow2 (e + 1)" and "- 1022 \<le> e"
  shows "to_double x = of_int (round_even (x / pow2 (e - 52))) * pow2 (e - 52)"
proof -
  have "x \<noteq> 0" using assms(1) pow2_pos [of e] by auto
  then show ?thesis using assms(3) by (simp add: to_double_def binade_eq [OF assms(1,2)])
qed

lemma round_even_between:
  assumes "of_int k - 1 / 2 < x" and "x < of_int k + 1 / 2"
  shows "round_even x = k"
proof (cases "of_int k \<le> x")
  case True
  then have "\<lfloor>x\<rfloor> = k" using assms(2) by (intro floor_unique) auto
  then show ?thesis using assms(2) by (simp add: round_even_def)
next
  case False
  then have "\<lfloor>x\<rfloor> = k - 1" using assms(1) by (intro floor_unique) auto
  then show ?thesis using assms(1) by (simp add: round_even_def)
qed

lemma to_double_sqrt:
  assumes "- 1022 \<le> e" and "0 \<le> k"
    and "(pow2 e)\<^sup>2 \<le> x" and "x < (pow2 (e + 1))\<^sup>2"
    and "0 \<le> of_int k - (1 / 2 :: real)"
    and "((of_int k - 1 / 2) * pow2 (e - 52))\<^sup>2 < x"
    and "x < ((of_int k + 1 / 2) * pow2 (e - 52))\<^sup>2"
  shows "to_double (sqrt x) = of_int k * pow2 (e - 52)"
proof -
  let ?u = "pow2 (e - 52)"
  have u: "0 < ?u" by (rule pow2_pos)
  have lo: "pow2 e \<le> sqrt x" using assms(3) by (rule real_le_rsqrt)
  have hi: "sqrt x < pow2 (e + 1)"
    using assms(4) pow2_pos [of "e + 1"] by (intro real_less_lsqrt) auto
  have pos: "0 < sqrt x" using lo pow2_pos [of e] by linarith
  have "(of_int k - 1 / 2) * ?u < sqrt x" using assms(6) by (rule real_less_rsqrt)
  then have a: "of_int k - 1 / 2 < sqrt x / ?u" using u by (simp add: field_simps)
  have "0 \<le> (of_int k + 1 / 2) * ?u" using assms(2) u by simp
  then have "sqrt x < (of_int k + 1 / 2) * ?u" using assms(7) by (intro real_less_lsqrt) auto
  then have b: "sqrt x / ?u < of_int k + 1 / 2" using u by (simp add: field_simps)
  have "to_double (sqrt x) = of_int (round_even (sqrt x / ?u)) * ?u"
    using lo hi pos assms(1) by (intro to_double_binade) auto
  then show ?thesis by (simp add: round_even_between [OF a b])
qed


text \<open>The sum and the mean of three tenths.\<close>

lemma sum_tenths: "sum_rounded to_double [tenth, tenth, tenth] = 5404319552844596 / 2 ^ 54"
proof -
  have s1: "to_double (0 + tenth) = tenth"
    by (subst to_double_binade [of "- 4"]) (simp_all add: pow2_def round_even_def tenth_def)
  have s2: "to_double (tenth + tenth) = 2 * tenth"
    by (subst to_double_binade [of "- 3"]) (simp_all add: pow2_def round_even_def tenth_def)
  have s3: "to_double (2 * tenth + tenth) = 5404319552844596 / 2 ^ 54"
    by (subst to_double_binade [of "- 2"]) (simp_all add: pow2_def round_even_def tenth_def)
  show ?thesis
    by (simp only: sum_rounded_def foldl.simps s1 s2 s3)
qed

lemma mean_tenths: "mean_rounded to_double [tenth, tenth, tenth] = tenth + 1 / 2 ^ 56"
  unfolding mean_rounded_def sum_tenths
  by (subst to_double_binade [of "- 4"]) (simp_all add: pow2_def round_even_def tenth_def)

lemma var_tenths: "var_rounded to_double [tenth, tenth, tenth] = 3 / 2 ^ 113"
proof -
  have dev: "to_double (tenth + 1 / 2 ^ 56 - tenth) = 1 / 2 ^ 56"
    by (subst to_double_binade [of "- 56"]) (simp_all add: pow2_def round_even_def)
  have sq: "to_double (1 / 2 ^ 56 * (1 / 2 ^ 56)) = 1 / 2 ^ 112"
    by (subst to_double_binade [of "- 112"]) (simp_all add: pow2_def round_even_def)
  have t1: "to_double (0 + 1 / 2 ^ 112) = 1 / 2 ^ 112"
    by (subst to_double_binade [of "- 112"]) (simp_all add: pow2_def round_even_def)
  have t2: "to_double (1 / 2 ^ 112 + 1 / 2 ^ 112) = 2 / 2 ^ 112"
    by (subst to_double_binade [of "- 111"]) (simp_all add: pow2_def round_even_def)
  have t3: "to_double (2 / 2 ^ 112 + 1 / 2 ^ 112) = 3 / 2 ^ 112"
    by (subst to_double_binade [of "- 111"]) (simp_all add: pow2_def round_even_def)
  have sums: "sum_rounded to_double [1 / 2 ^ 112, 1 / 2 ^ 112, 1 / 2 ^ 112] = 3 / 2 ^ 112"
    by (simp only: sum_rounded_def foldl.simps t1 t2 t3)
  have half: "to_double (3 / 2 ^ 112 / real (length [tenth, tenth, tenth] - 1)) = 3 / 2 ^ 113"
    by (subst to_double_binade [of "- 112"]) (simp_all add: pow2_def round_even_def)
  show ?thesis
    by (simp only: var_rounded_def Let_def mean_tenths list.map dev sq sums half)
qed

lemma std_tenths: "std_rounded to_double [tenth, tenth, tenth] = 5515760546423086 / 2 ^ 108"
proof -
  have "to_double (sqrt (3 / 2 ^ 113)) = of_int 5515760546423086 * pow2 (- 56 - 52)"
    by (rule to_double_sqrt) (simp_all add: pow2_def power2_eq_square)
  then show ?thesis by (simp add: std_rounded_def var_tenths pow2_def)
qed


text \<open>The Sharpe ratio of three tenths in double precision.\<close>

lemma mean_excess_tenths:
  "mean_rounded to_double
     [7200040547123117 / 2 ^ 56, 7200040547123117 / 2 ^ 56, 7200040547123117 / 2 ^ 56]
     = 7200040547123117 / 2 ^ 56"
proof -
  let ?E = "7200040547123117 / 2 ^ 56 :: real"
  have e1: "to_double (0 + ?E) = ?E"
    by (subst to_double_binade [of "- 4"]) (simp_all add: pow2_def round_even_def)
  have e2: "to_double (?E + ?E) = 7200040547123117 / 2 ^ 55"
    by (subst to_double_binade [of "- 3"]) (simp_all add: pow2_def round_even_def)
  have e3: "to_double (7200040547123117 / 2 ^ 55 + ?E) = 2700015205171169 / 2 ^ 53"
    by (subst to_double_binade [of "- 2"]) (simp_all add: pow2_def round_even_def)
  have em: "to_double (2700015205171169 / 2 ^ 53 / real (length [?E, ?E, ?E])) = ?E"
    by (subst to_double_binade [of "- 4"]) (simp_all add: pow2_def round_even_def)
  show ?thesis
    by (simp only: mean_rounded_def sum_rounded_def foldl.simps e1 e2 e3 em)
qed

lemma sharpe_tenths: "sharpe_rounded to_double [tenth, tenth, tenth] = 93323191607855184"
proof -
  have nz: "std_rounded to_double [tenth, tenth, tenth] \<noteq> 0"
    by (simp add: std_tenths)
  have rf: "to_double (2 / 100) = 5764607523034235 / 2 ^ 58"
    by (subst to_double_binade [of "- 6"]) (simp_all add: pow2_def round_even_def)
  have rfd: "to_double (5764607523034235 / 2 ^ 58 / 252) = 732013653718633 / 2 ^ 63"
    by (subst to_double_binade [of "- 14"]) (simp_all add: pow2_def round_even_def)
  have ex: "to_double (tenth - 732013653718633 / 2 ^ 63) = 7200040547123117 / 2 ^ 56"
    by (subst to_double_binade [of "- 4"]) (simp_all add: pow2_def round_even_def tenth_def)
  have "to_double (sqrt 252) = of_int 8936553463969119 * pow2 (3 - 52)"
    by (rule to_double_sqrt) (simp_all add: pow2_def power2_eq_square)
  then have s252: "to_double (sqrt 252) = 8936553463969119 / 2 ^ 49"
    by (simp add: pow2_def)
  have num: "to_double (8936553463969119 / 2 ^ 49 * (7200040547123117 / 2 ^ 56))
               = 3571784384487975 / 2 ^ 51"
    by (subst to_double_binade [of 0]) (simp_all add: pow2_def round_even_def)
  have quot: "to_double (3571784384487975 / 2 ^ 51 / (5515760546423086 / 2 ^ 108))
               = 93323191607855184"
    by (subst to_double_binade [of 56]) (simp_all add: pow2_def round_even_def)
  show ?thesis
    apply (simp only: sharpe_rounded_def Let_def nz not_False_eq_True if_True)
    apply (simp only: list.map rf rfd ex mean_excess_tenths s252 num std_tenths quot)
    done
qed

text \<open>Beta and alpha of three returns 0 against three benchmark returns of one tenth.\<close>

lemma to_double_zero: "to_double 0 = 0"
  by (simp add: to_double_def)

lemma to_double_one: "to_double 1 = 1"
  by (subst to_double_binade [of 0]) (simp_all add: pow2_def round_even_def)

lemma mean_zeros: "mean_rounded to_double [0, 0, 0] = 0"
  by (simp add: mean_rounded_def sum_rounded_def to_double_zero)

lemma cov_zeros_tenths: "cov_rounded to_double [0, 0, 0] [tenth, tenth, tenth] = 0"
  by (simp add: cov_rounded_def Let_def mean_zeros sum_rounded_def to_double_zero)

lemma beta_zeros_tenths: "beta_rounded to_double [0, 0, 0] [tenth, tenth, tenth] = 0"
  by (simp add: beta_rounded_def cov_zeros_tenths var_tenths to_double_zero)

lemma annualized_zeros: "annualized_rounded to_double [0, 0, 0] = 0"
  by (simp add: annualized_rounded_def mean_zeros to_double_one to_double_zero)

lemma alpha_zeros_tenths:
  "alpha_rounded to_double [0, 0, 0] [tenth, tenth, tenth] = - (5764607523034235 / 2 ^ 58)"
proof -
  have rf: "to_double (2 / 100) = 5764607523034235 / 2 ^ 58"
    by (subst to_double_binade [of "- 6"]) (simp_all add: pow2_def round_even_def)
  have neg: "to_double (- (5764607523034235 / 2 ^ 58)) = - (5764607523034235 / 2 ^ 58)"
    by (subst to_double_binade [of "- 6"]) (simp_all add: pow2_def round_even_def)
  have nz: "var_rounded to_double [tenth, tenth, tenth] \<noteq> 0"
    by (simp add: var_tenths)
  have "alpha_rounded to_double [0, 0, 0] [tenth, tenth, tenth]
          = to_double (to_double (0 - to_double (2 / 100)) - to_double 0)"
    using nz
    by (simp only: alpha_rounded_def annualized_zeros beta_zeros_tenths mult_zero_left
        not_False_eq_True if_True)
  also have "\<dots> = - (5764607523034235 / 2 ^ 58)"
    by (simp only: rf to_double_zero diff_0 diff_zero neg)
  finally show ?thesis .
qed

text \<open>
  With the identity as rounding, the definitions of this section are the statistics of
  the model on a series of finite values.
\<close>

lemma foldl_add_sum_list: "foldl (+) (a :: real) xs = a + sum_list xs"
  by (induction xs arbitrary: a) (simp_all add: add.assoc)

lemma sum_rounded_id: "sum_rounded id xs = sum_list xs"
  by (simp add: sum_rounded_def foldl_add_sum_list)

lemma no_inf_finite: "no_inf (map Fin xs)"
  by (induction xs) (simp_all add: no_inf_def)

lemma observed_finite: "observed (map Fin xs) = xs"
  by (induction xs) simp_all

lemma mean_rounded_id: "mean_rounded id xs = spec_mean xs"
  by (simp add: mean_rounded_def sum_rounded_id spec_mean_def)

lemma var_rounded_id: "var_rounded id xs = spec_variance xs"
proof -
  have "(\<Sum>x\<leftarrow>xs. (spec_mean xs - x) * (spec_mean xs - x)) = (\<Sum>x\<leftarrow>xs. (x - spec_mean xs)\<^sup>2)"
    by (rule arg_cong [where f = sum_list]) (simp add: power2_eq_square algebra_simps)
  then show ?thesis
    by (simp add: var_rounded_def Let_def mean_rounded_id sum_rounded_id spec_variance_def)
qed

lemma unrounded_statistics:
  assumes "2 \<le> length xs"
  shows "mean (map Fin xs) = Fin (mean_rounded id xs)"
    and "var (map Fin xs) = Fin (var_rounded id xs)"
    and "std (map Fin xs) = Fin (std_rounded id xs)"
    and "sharpe_ratio (map Fin xs) = Fin (sharpe_rounded id xs)"
proof -
  have ne: "observed (map Fin xs) \<noteq> []" using assms by (auto simp: observed_finite)
  have two: "2 \<le> length (observed (map Fin xs))" using assms by (simp add: observed_finite)
  show "mean (map Fin xs) = Fin (mean_rounded id xs)"
    using mean_observed [OF no_inf_finite ne] by (simp add: observed_finite mean_rounded_id)
  show "var (map Fin xs) = Fin (var_rounded id xs)"
    using var_observed [OF no_inf_finite two] by (simp add: observed_finite var_rounded_id)
  show "std (map Fin xs) = Fin (std_rounded id xs)"
    using std_observed [OF no_inf_finite two]
    by (simp add: observed_finite std_rounded_def var_rounded_id spec_stddev_def)
  show "sharpe_ratio (map Fin xs) = Fin (sharpe_rounded id xs)"
    using sharpe_ratio_observed [OF no_inf_finite two]
    by (simp add: observed_finite sharpe_rounded_def std_rounded_def var_rounded_id
        mean_rounded_id spec_stddev_def risk_free_rate_def Let_def)
qed


lemma observed_pairs_finite:
  "length xs = length ys \<Longrightarrow> observed_pairs (zip (map Fin xs) (map Fin ys)) = zip xs ys"
  by (induction xs ys rule: list_induct2) simp_all

lemma sum_list_zip_map:
  "length xs = length ys \<Longrightarrow>
   sum_list (map (\<lambda>(a, b). a * b) (zip (map f xs) (map g ys)))
     = (\<Sum>(x, y)\<leftarrow>zip xs ys. f x * g y)"
  by (induction xs ys rule: list_induct2) simp_all

lemma cov_rounded_id:
  assumes "length xs = length ys"
  shows "cov_rounded id xs ys = spec_covariance (zip xs ys)"
  using assms
  by (simp add: cov_rounded_def Let_def mean_rounded_id sum_rounded_id sum_list_zip_map
      spec_covariance_def)

lemma unrounded_covariance:
  assumes "length ds = length xs" and "length xs = length ys" and "2 \<le> length xs"
  shows "cov (zip ds (map Fin xs)) (zip ds (map Fin ys)) = Fin (cov_rounded id xs ys)"
proof -
  let ?a = "zip ds (map Fin xs)" and ?b = "zip ds (map Fin ys)"
  have va: "vals ?a = map Fin xs" and vb: "vals ?b = map Fin ys"
    using assms by (simp_all add: vals_def)
  have "dates ?a = dates ?b" using assms by (simp add: dates_def)
  then have j: "joined ?a ?b = zip (map Fin xs) (map Fin ys)"
    by (simp add: joined_def va vb)
  have op: "observed_pairs (joined ?a ?b) = zip xs ys"
    unfolding j using assms(2) by (rule observed_pairs_finite)
  have "cov ?a ?b = Fin (spec_covariance (observed_pairs (joined ?a ?b)))"
  proof (rule cov_observed)
    show "no_inf (vals ?a)" unfolding va by (rule no_inf_finite)
    show "no_inf (vals ?b)" unfolding vb by (rule no_inf_finite)
    show "2 \<le> length (observed_pairs (joined ?a ?b))"
      unfolding op using assms by simp
  qed
  then show ?thesis by (simp add: op cov_rounded_id [OF assms(2)])
qed


lemma unrounded_metrics:
  assumes "length ds = length xs" and "length xs = length ys" and "2 \<le> length xs"
  shows "calculate_metrics (zip ds (map Fin xs)) b ''sharpe_ratio''
           = Some (Fin (sharpe_rounded id xs))"
    and "calculate_metrics (zip ds (map Fin xs)) (Some (zip ds (map Fin ys))) ''beta''
           = Some (Fin (beta_rounded id xs ys))"
    and "calculate_metrics (zip ds (map Fin xs)) (Some (zip ds (map Fin ys))) ''alpha''
           = Some (Fin (alpha_rounded id xs ys))"
proof -
  let ?a = "zip ds (map Fin xs)" and ?b = "zip ds (map Fin ys)"
  have va: "vals ?a = map Fin xs" and vb: "vals ?b = map Fin ys"
    using assms by (simp_all add: vals_def)
  have ne: "?a \<noteq> []" "?b \<noteq> []" using assms by auto
  have two: "2 \<le> length ys" using assms by simp
  note sx = unrounded_statistics [OF assms(3)] and sy = unrounded_statistics [OF two]
  note c = unrounded_covariance [OF assms]
  show "calculate_metrics ?a b ''sharpe_ratio'' = Some (Fin (sharpe_rounded id xs))"
    by (simp add: calculate_metrics_sharpe [OF ne(1)] va sx(4))
  show "calculate_metrics ?a (Some ?b) ''beta'' = Some (Fin (beta_rounded id xs ys))"
    by (simp add: calculate_metrics_beta_alpha(1) [OF ne] vb sy(2) c beta_rounded_def)
  show "calculate_metrics ?a (Some ?b) ''alpha'' = Some (Fin (alpha_rounded id xs ys))"
    by (simp add: calculate_metrics_beta_alpha(2) [OF ne] va vb sx(1) sy(1) sy(2) c
        annualized_finite fsub_def risk_free_rate_def
        alpha_rounded_def beta_rounded_def annualized_rounded_def)
qed

text \<open>With exact operations, the two guards on three tenths give the constants.\<close>

lemma variance_tenths: "spec_variance [tenth, tenth, tenth] = 0"
  by (simp add: spec_variance_def spec_mean_def)

lemma sharpe_exact_tenths: "sharpe_rounded id [tenth, tenth, tenth] = 0"
  by (simp add: sharpe_rounded_def std_rounded_def var_rounded_id variance_tenths)

lemma beta_alpha_exact_tenths:
  "beta_rounded id xs [tenth, tenth, tenth] = 1"
  "alpha_rounded id xs [tenth, tenth, tenth] = 0"
  by (simp_all add: beta_rounded_def alpha_rounded_def var_rounded_id variance_tenths)

text \<open>
  Claim C4 says that the Sharpe ratio of a return series whose sample standard deviation
  is zero is 0. For the three returns 0.1, 0.1, 0.1 the sample standard deviation is zero,
  and with exact operations the ratio is 0. In double precision the sum of the three is
  0.30000000000000004, their mean 0.10000000000000002, every deviation 2 to the power -56,
  and the computed standard deviation is about 1.7e-17: the guard of line 228 does not
  hold, and the ratio returned is 93323191607855184.
\<close>

theorem sharpe_ratio_of_equal_returns:
  "spec_stddev [tenth, tenth, tenth] = 0 \<and>
   sharpe_rounded id [tenth, tenth, tenth] = 0 \<and>
   var_rounded to_double [tenth, tenth, tenth] = 3 / 2 ^ 113 \<and>
   std_rounded to_double [tenth, tenth, tenth] = 5515760546423086 / 2 ^ 108 \<and>
   sharpe_rounded to_double [tenth, tenth, tenth] = 93323191607855184"
  by (simp add: spec_stddev_def variance_tenths sharpe_exact_tenths var_tenths std_tenths
      sharpe_tenths)

text \<open>
  Claim C3 says that beta is 1 and alpha is 0 when the sample variance of the benchmark
  returns is zero. For the three benchmark returns 0.1, 0.1, 0.1 the sample variance is
  zero, and with exact operations beta is 1 and alpha is 0. In double precision the
  computed variance is 3 over 2 to the power 113, about 2.9e-34: the guard of line 244
  holds, and for the three returns 0, 0, 0 the covariance is 0, beta is 0 and alpha is the
  double nearest to -0.02.
\<close>

theorem beta_alpha_of_equal_benchmark_returns:
  "spec_variance [tenth, tenth, tenth] = 0 \<and>
   beta_rounded id [0, 0, 0] [tenth, tenth, tenth] = 1 \<and>
   alpha_rounded id [0, 0, 0] [tenth, tenth, tenth] = 0 \<and>
   var_rounded to_double [tenth, tenth, tenth] \<noteq> 0 \<and>
   cov_rounded to_double [0, 0, 0] [tenth, tenth, tenth] = 0 \<and>
   beta_rounded to_double [0, 0, 0] [tenth, tenth, tenth] = 0 \<and>
   alpha_rounded to_double [0, 0, 0] [tenth, tenth, tenth] = - (5764607523034235 / 2 ^ 58)"
  by (simp add: variance_tenths beta_alpha_exact_tenths var_tenths cov_zeros_tenths
      beta_zeros_tenths alpha_zeros_tenths)

end
